theory Spec2Isabelle
  imports Complex_Main "HOL-Library.Multiset"
begin

section \<open>Python values read from the schedule file\<close>

text \<open>
  The departure board (\<^verbatim>\<open>main.py\<close>, class \<^verbatim>\<open>DepartureBoard\<close>) receives what
  \<^verbatim>\<open>json.load\<close> returns. A Python \<^verbatim>\<open>str\<close> is a sequence of Unicode code points,
  modelled as a list of naturals; ASCII literals of the source are written with \<open>ascii\<close>.
\<close>

type_synonym pystr = "nat list"

definition ascii :: "string \<Rightarrow> pystr" where
  "ascii s = map of_char s"

datatype pyfloat = Fin rat | PosInf | NegInf | NaN

datatype json =
    JNull
  | JBool bool
  | JInt int
  | JFloat pyfloat
  | JStr pystr
  | JList "json list"
  | JDict "(pystr \<times> json) list"

type_synonym pydict = "(pystr \<times> json) list"

datatype error = AttributeError | ValueError | TypeError | OverflowError | RecursionError

text \<open>
  Three things the program relies on are not part of the repository and are parameters of
  the model:
  \<^item> Python's table of decimal digits: \<^verbatim>\<open>int(s)\<close> reads the decimal digits of every
    script. \<open>digit_of c\<close> is the value of the code point \<open>c\<close> if it is such a digit.
    \<open>max_str_digits\<close> is the interpreter's limit on the number of digits \<^verbatim>\<open>int(s)\<close>
    converts (4300 unless configured; 0 for none).
  \<^item> \<^verbatim>\<open>str(v)\<close> for a value that is not a string: \<open>str_err v\<close> is the exception it
    raises, if any (ValueError for an integer of more digits than the limit, RecursionError
    for lists nested too deeply). For a string \<^verbatim>\<open>str\<close> returns the string itself.
  \<^item> PyQt's label constructors: \<open>ctor_ok t d l p\<close> says that
    \<^verbatim>\<open>DepartureRow(t, d, l, p, status)\<close>, which hands the four values to \<^verbatim>\<open>QLabel\<close> and
    \<^verbatim>\<open>MarqueeLabel\<close>, returns; otherwise it raises TypeError.
\<close>

record platform =
  digit_of :: "nat \<Rightarrow> int option"
  max_str_digits :: nat
  str_err :: "json \<Rightarrow> error option"
  ctor_ok :: "json \<Rightarrow> json \<Rightarrow> json \<Rightarrow> json \<Rightarrow> bool"

text \<open>Truthiness of a value, as \<^verbatim>\<open>bool(x)\<close> and \<^verbatim>\<open>x or 0\<close> decide it.\<close>

fun truthy :: "json \<Rightarrow> bool" where
  "truthy JNull = False"
| "truthy (JBool b) = b"
| "truthy (JInt n) = (n \<noteq> 0)"
| "truthy (JFloat f) = (f \<noteq> Fin 0)"
| "truthy (JStr s) = (s \<noteq> [])"
| "truthy (JList xs) = (xs \<noteq> [])"
| "truthy (JDict kvs) = (kvs \<noteq> [])"

text \<open>\<^verbatim>\<open>d.get(key, default)\<close> on a dictionary.\<close>

definition dget :: "pydict \<Rightarrow> pystr \<Rightarrow> json \<Rightarrow> json" where
  "dget kvs k d = (case map_of kvs k of None \<Rightarrow> d | Some v \<Rightarrow> v)"

text \<open>
  The characters \<^verbatim>\<open>str.strip()\<close> and \<^verbatim>\<open>int()\<close> treat as white space: U+0009..U+000D,
  U+001C..U+0020, U+0085, U+00A0, U+1680, U+2000..U+200A, U+2028, U+2029, U+202F, U+205F
  and U+3000.
\<close>

definition py_isspace :: "nat \<Rightarrow> bool" where
  "py_isspace c \<longleftrightarrow>
     (9 \<le> c \<and> c \<le> 13) \<or> (28 \<le> c \<and> c \<le> 32) \<or> c = 133 \<or> c = 160 \<or> c = 5760 \<or>
     (8192 \<le> c \<and> c \<le> 8202) \<or> c = 8232 \<or> c = 8233 \<or> c = 8239 \<or> c = 8287 \<or> c = 12288"

definition strip :: "pystr \<Rightarrow> pystr" where
  "strip s = rev (dropWhile py_isspace (rev (dropWhile py_isspace s)))"

text \<open>
  \<^verbatim>\<open>int(s)\<close> for a string, base 10: surrounding white space is dropped, one sign is
  allowed, and single underscores may stand between digits; the digits are those of the
  platform's table, and there may not be more of them than the platform's limit. \<open>None\<close>
  is the ValueError.
\<close>

fun py_digits :: "platform \<Rightarrow> int \<Rightarrow> pystr \<Rightarrow> int option" where
  "py_digits E acc [] = Some acc"
| "py_digits E acc (c # cs) =
     (if c = 95 then
        (case cs of
           [] \<Rightarrow> None
         | d # ds \<Rightarrow> (case digit_of E d of None \<Rightarrow> None | Some v \<Rightarrow> py_digits E (acc * 10 + v) ds))
      else (case digit_of E c of None \<Rightarrow> None | Some v \<Rightarrow> py_digits E (acc * 10 + v) cs))"

definition py_unsigned :: "platform \<Rightarrow> pystr \<Rightarrow> int option" where
  "py_unsigned E s =
     (case s of
        [] \<Rightarrow> None
      | d # ds \<Rightarrow>
          (case digit_of E d of
             None \<Rightarrow> None
           | Some v \<Rightarrow>
               (if max_str_digits E \<noteq> 0 \<and> max_str_digits E < length (filter (\<lambda>c. c \<noteq> 95) s)
                then None else py_digits E v ds)))"

definition py_int_str :: "platform \<Rightarrow> pystr \<Rightarrow> int option" where
  "py_int_str E s =
     (case strip s of
        [] \<Rightarrow> None
      | c # cs \<Rightarrow>
          (if c = 43 then py_unsigned E cs
           else if c = 45 then map_option uminus (py_unsigned E cs)
           else py_unsigned E (c # cs)))"

text \<open>\<^verbatim>\<open>int(x)\<close> for any value of the file. A float is truncated towards zero.\<close>

definition trunc :: "rat \<Rightarrow> int" where
  "trunc r = (if 0 \<le> r then \<lfloor>r\<rfloor> else \<lceil>r\<rceil>)"

fun py_int :: "platform \<Rightarrow> json \<Rightarrow> error + int" where
  "py_int E JNull = Inl TypeError"
| "py_int E (JBool b) = Inr (if b then 1 else 0)"
| "py_int E (JInt n) = Inr n"
| "py_int E (JFloat (Fin r)) = Inr (trunc r)"
| "py_int E (JFloat NaN) = Inl ValueError"
| "py_int E (JFloat PosInf) = Inl OverflowError"
| "py_int E (JFloat NegInf) = Inl OverflowError"
| "py_int E (JStr s) = (case py_int_str E s of None \<Rightarrow> Inl ValueError | Some n \<Rightarrow> Inr n)"
| "py_int E (JList xs) = Inl TypeError"
| "py_int E (JDict kvs) = Inl TypeError"

text \<open>\<^verbatim>\<open>int(item.get("delay_secs", 0) or 0)\<close>, written three times in the source.\<close>

definition delay_secs_of :: "platform \<Rightarrow> pydict \<Rightarrow> error + int" where
  "delay_secs_of E kvs =
     (let v = dget kvs (ascii ''delay_secs'') (JInt 0)
      in py_int E (if truthy v then v else JInt 0))"

section \<open>Time\<close>

text \<open>
  A constant cannot start with an underscore, so the methods \<^verbatim>\<open>_fill_up_to_six\<close>,
  \<^verbatim>\<open>_refresh_statuses\<close>, \<^verbatim>\<open>_create_row_from_item\<close> and the function
  \<^verbatim>\<open>_parse_today_or_tomorrow_time\<close> are named here without it.
\<close>

text \<open>
  A naive \<^verbatim>\<open>datetime\<close> is the exact number of seconds since 0001-01-01 00:00:00, a
  rational (Python keeps microseconds). A \<^verbatim>\<open>timedelta\<close> is a rational number of seconds.
  \<^verbatim>\<open>total_seconds()\<close> returns a float, the timedelta's microseconds divided by \<open>10^6\<close>;
  the program compares it only with integers (thresholds and 0) and with earlier such
  values, and for the magnitudes a clock produces these comparisons are decided as for the
  exact rational, which is what the model compares.
  Every \<^verbatim>\<open>datetime.now()\<close> that decides something is a parameter of the model: the
  reading of \<^verbatim>\<open>_refresh_statuses\<close>, the reading of \<^verbatim>\<open>_fill_up_to_six\<close>, and one reading
  for each record \<^verbatim>\<open>set_departures\<close> parses.
  The clock is taken to be more than a day away from both ends of the calendar (the years 1
  and 9999), so that the clock less 12 hours or 60 seconds, a candidate time plus a day, and
  the end of a dwell (the entry's time plus 60 seconds, set once the clock has reached that
  time) exist. A delay can still carry an effective time out of the calendar, which is the
  OverflowError of \<open>add_delay\<close>.
\<close>

type_synonym datetime = rat

definition day_start :: "datetime \<Rightarrow> datetime" where
  "day_start now = of_int (\<lfloor>now / 86400\<rfloor>) * 86400"

definition dt_max :: rat where
  "dt_max = 3652059 * 86400"

text \<open>\<^verbatim>\<open>hhmm.split(":", 1)\<close>: the part before the first colon, and the rest if there is one.\<close>

definition split_colon :: "pystr \<Rightarrow> pystr \<times> pystr option" where
  "split_colon s =
     (takeWhile (\<lambda>c. c \<noteq> 58) s,
      case dropWhile (\<lambda>c. c \<noteq> 58) s of [] \<Rightarrow> None | _ # r \<Rightarrow> Some r)"

text \<open>
  The \<^verbatim>\<open>try\<close> block of \<^verbatim>\<open>_parse_today_or_tomorrow_time\<close>: anything that is not two
  integers around a colon (also a value that is not a string, which has no \<^verbatim>\<open>split\<close>)
  gives 0, 0.
\<close>

definition hour_minute :: "platform \<Rightarrow> json \<Rightarrow> int \<times> int" where
  "hour_minute E hhmm =
     (case hhmm of
        JStr s \<Rightarrow>
          (case split_colon s of
             (a, Some b) \<Rightarrow>
               (case py_int_str E a of
                  None \<Rightarrow> (0, 0)
                | Some h \<Rightarrow> (case py_int_str E b of None \<Rightarrow> (0, 0) | Some m \<Rightarrow> (h, m)))
           | (a, None) \<Rightarrow> (0, 0))
      | _ \<Rightarrow> (0, 0))"

text \<open>
  \<^verbatim>\<open>now.replace(hour=..., minute=..., second=0, microsecond=0)\<close> is outside the
  \<^verbatim>\<open>try\<close>. Its arguments are converted to C integers first, which raises OverflowError
  for a value that does not fit; then an hour outside 0..23 or a minute outside 0..59 raises
  ValueError. \<open>time_fields\<close> is that check, which does not depend on the clock.
\<close>

definition c_int_ok :: "int \<Rightarrow> bool" where
  "c_int_ok v \<longleftrightarrow> - 2147483648 \<le> v \<and> v \<le> 2147483647"

definition time_fields :: "platform \<Rightarrow> json \<Rightarrow> error + int \<times> int" where
  "time_fields E hhmm =
     (let (hour, minute) = hour_minute E hhmm
      in if \<not> c_int_ok hour \<or> \<not> c_int_ok minute then Inl OverflowError
         else if hour < 0 \<or> 23 < hour \<or> minute < 0 \<or> 59 < minute then Inl ValueError
         else Inr (hour, minute))"

definition parse_today_or_tomorrow_time :: "platform \<Rightarrow> datetime \<Rightarrow> json \<Rightarrow> error + datetime" where
  "parse_today_or_tomorrow_time E now hhmm =
     (case time_fields E hhmm of
        Inl e \<Rightarrow> Inl e
      | Inr (hour, minute) \<Rightarrow>
          (let candidate = day_start now + of_int hour * 3600 + of_int minute * 60
           in if candidate < now - 12 * 3600 then Inr (candidate + 86400) else Inr candidate))"

text \<open>
  \<^verbatim>\<open>dep_time + timedelta(seconds=delay_secs)\<close>: the timedelta must have at most
  999999999 days, and the sum must be a date of the years 1 to 9999.
\<close>

definition add_delay :: "datetime \<Rightarrow> int \<Rightarrow> error + datetime" where
  "add_delay dep_time delay_secs =
     (if delay_secs div 86400 < - 999999999 \<or> 999999999 < delay_secs div 86400 then Inl OverflowError
      else if dep_time + of_int delay_secs < 0 \<or> dt_max \<le> dep_time + of_int delay_secs
        then Inl OverflowError
      else Inr (dep_time + of_int delay_secs))"

section \<open>The board's state\<close>

text \<open>
  An element of \<^verbatim>\<open>_all_items\<close>: \<^verbatim>\<open>{"raw": item, "time": adj_time, "shown": False}\<close>.
  Only a dictionary gets this far, so \<open>raw\<close> is the dictionary's content.
\<close>

record sched_item =
  raw :: pydict
  time :: datetime
  shown :: bool

text \<open>
  The texts a row's status label takes, in the order the source writes them:
  "teikoku" (on time), "chien" (delayed), "shuchaku teishachu" (terminal, stopped),
  "shuchaku tochaku" (terminal, arrived), "shuchaku sekkin" (terminal, approaching),
  "sekkin" (approaching), "teishachu" (stopped), "tochaku" (arrived), "hassha" (departed),
  "tsuka" (passed).
\<close>

datatype status =
    OnTime | Delayed
  | TermStopped | TermArrived | TermApproaching
  | Approaching | Stopped | Arrived
  | Departed | Passed

text \<open>
  An element of \<^verbatim>\<open>_model\<close>, with the row widget's status label and platform label.
  The dictionary \<^verbatim>\<open>played\<close> is the four flags; \<^verbatim>\<open>"pass"\<close> and
  \<^verbatim>\<open>"post_depart_at"\<close> are absent until first written, which is \<open>False\<close> and \<open>None\<close>.
  The list \<^verbatim>\<open>rows\<close> is appended to, deleted from and cleared together with
  \<^verbatim>\<open>_model\<close>, so the two always have the same length and one list stands for both.
\<close>

record vis_entry =
  e_time :: datetime
  e_raw :: pydict
  pass_through :: bool
  terminal_here :: bool
  is_delayed :: bool
  dwell_until :: "datetime option"
  post_depart_at :: "datetime option"
  played_pre77 :: bool
  played_arrival :: bool
  played_departed :: bool
  played_pass :: bool
  last_delta :: "rat option"
  row_status :: status
  row_platform :: json

text \<open>
  \<open>notice\<close> is the pass-through banner: \<open>Some p\<close> when its text announces platform
  \<open>p\<close> and it blinks, \<open>None\<close> when the text is empty and the blinking is stopped.
\<close>

record board =
  all_items :: "sched_item list"
  model :: "vis_entry list"
  notice :: "json option"

definition init_board :: board where
  "init_board = \<lparr>all_items = [], model = [], notice = None\<rparr>"

section \<open>Window fill\<close>

text \<open>The two code points of the type name that marks a train terminating here.\<close>

definition kaisou :: pystr where
  "kaisou = [22238, 36865]"

text \<open>
  \<^verbatim>\<open>str(raw.get("type", "")).strip() == kaisou\<close>. For a value that is not a string,
  \<^verbatim>\<open>str\<close> gives an ASCII rendering (\<^verbatim>\<open>None\<close>, \<^verbatim>\<open>True\<close>, digits, brackets),
  which never equals the two-character name. \<^verbatim>\<open>_fill_up_to_six\<close> evaluates it after
  \<^verbatim>\<open>_create_row_from_item\<close> has evaluated the same \<^verbatim>\<open>str\<close>, so it returns.
\<close>

definition is_terminal_type :: "json \<Rightarrow> bool" where
  "is_terminal_type v = (case v of JStr s \<Rightarrow> strip s = kaisou | _ \<Rightarrow> False)"

definition is_str :: "json \<Rightarrow> bool" where
  "is_str v = (case v of JStr s \<Rightarrow> True | _ \<Rightarrow> False)"

text \<open>The exception \<^verbatim>\<open>str(v)\<close> raises, if any.\<close>

definition py_str_err :: "platform \<Rightarrow> json \<Rightarrow> error option" where
  "py_str_err E v = (case v of JStr s \<Rightarrow> None | _ \<Rightarrow> str_err E v)"

text \<open>
  \<^verbatim>\<open>_create_row_from_item\<close>, as far as it can raise; \<open>None\<close> when the row is built.
  In the order of the source: the constructor of the row with the record's \<^verbatim>\<open>time\<close>,
  \<^verbatim>\<open>destination\<close>, \<^verbatim>\<open>line\<close> and \<^verbatim>\<open>platform\<close>; \<^verbatim>\<open>str\<close> of the type and of the
  via; the \<^verbatim>\<open>join\<close> of a non-empty list of stops, a TypeError unless all are strings;
  the time parsed again; the delay converted again. (The \<^verbatim>\<open>str\<close> of the type under
  "hide stops" repeats the first one.)
\<close>

definition create_row_from_item :: "platform \<Rightarrow> pydict \<Rightarrow> error option" where
  "create_row_from_item E item =
     (if \<not> ctor_ok E (dget item (ascii ''time'') (JStr (ascii ''--:--'')))
                      (dget item (ascii ''destination'') (JStr []))
                      (dget item (ascii ''line'') (JStr []))
                      (dget item (ascii ''platform'') (JStr (ascii ''-'')))
      then Some TypeError
      else if py_str_err E (dget item (ascii ''type'') (JStr [])) \<noteq> None
      then py_str_err E (dget item (ascii ''type'') (JStr []))
      else if py_str_err E (dget item (ascii ''via'') (JStr [])) \<noteq> None
      then py_str_err E (dget item (ascii ''via'') (JStr []))
      else if (case dget item (ascii ''stops'') JNull of
                 JList xs \<Rightarrow> xs \<noteq> [] \<and> \<not> list_all is_str xs
               | _ \<Rightarrow> False)
      then Some TypeError
      else (case time_fields E (dget item (ascii ''time'') (JStr (ascii ''00:00''))) of
              Inl e \<Rightarrow> Some e
            | Inr hm \<Rightarrow> (case delay_secs_of E item of Inl e \<Rightarrow> Some e | Inr d \<Rightarrow> None)))"

text \<open>
  The dictionary appended to \<^verbatim>\<open>_model\<close> by \<^verbatim>\<open>_fill_up_to_six\<close>, with the row made
  by \<^verbatim>\<open>_create_row_from_item\<close> (status text "teikoku"). It is made only after the row
  was built, so the delay conversion has succeeded on this dictionary; the \<open>Inl\<close> branch
  below is never taken then (lemma \<open>row_built_delay\<close>).
\<close>

definition new_entry :: "platform \<Rightarrow> sched_item \<Rightarrow> vis_entry" where
  "new_entry E it =
     \<lparr>e_time = time it,
      e_raw = raw it,
      pass_through = truthy (dget (raw it) (ascii ''pass_through'') (JBool False)),
      terminal_here = is_terminal_type (dget (raw it) (ascii ''type'') (JStr [])),
      is_delayed = (case delay_secs_of E (raw it) of Inr n \<Rightarrow> 0 < n | Inl e \<Rightarrow> False),
      dwell_until = None,
      post_depart_at = None,
      played_pre77 = False,
      played_arrival = False,
      played_departed = False,
      played_pass = False,
      last_delta = None,
      row_status = OnTime,
      row_platform = dget (raw it) (ascii ''platform'') (JStr (ascii ''-''))\<rparr>"

text \<open>The test of the inner \<^verbatim>\<open>for\<close> loop of \<^verbatim>\<open>_fill_up_to_six\<close>.\<close>

definition eligible :: "datetime \<Rightarrow> sched_item \<Rightarrow> bool" where
  "eligible now it \<longleftrightarrow> \<not> shown it \<and> now - 60 \<le> time it"

text \<open>The inner loop: the index of the first eligible item.\<close>

fun find_next :: "datetime \<Rightarrow> sched_item list \<Rightarrow> nat option" where
  "find_next now [] = None"
| "find_next now (it # its) =
     (if eligible now it then Some 0 else map_option Suc (find_next now its))"

text \<open>
  The \<^verbatim>\<open>while len(self.rows) < 6\<close> loop. When the row cannot be built the exception
  leaves the loop, before the row is appended and before \<^verbatim>\<open>shown\<close> is set: \<open>Inl\<close>
  carries the exception and the board as it is then.
\<close>

function fill_loop :: "platform \<Rightarrow> datetime \<Rightarrow> board \<Rightarrow> (error \<times> board) + board" where
  "fill_loop E now s =
     (if length (model s) < 6 then
        (case find_next now (all_items s) of
           None \<Rightarrow> Inr s
         | Some i \<Rightarrow>
             (case create_row_from_item E (raw (all_items s ! i)) of
                Some e \<Rightarrow> Inl (e, s)
              | None \<Rightarrow>
                  fill_loop E now
                    (s\<lparr>model := model s @ [new_entry E (all_items s ! i)],
                       all_items := (all_items s)[i := (all_items s ! i)\<lparr>shown := True\<rparr>]\<rparr>)))
      else Inr s)"
  by pat_completeness auto
termination
  by (relation "measure (\<lambda>(E, now, s). 6 - length (model s))") auto

declare fill_loop.simps [simp del]

text \<open>
  \<^verbatim>\<open>_fill_up_to_six\<close>. What follows the loop in the source sets the "next" and "last"
  badges and the end-of-service banner; it changes neither \<^verbatim>\<open>_all_items\<close> nor
  \<^verbatim>\<open>_model\<close> nor the notice, and it does not raise.
\<close>

definition fill_up_to_six :: "platform \<Rightarrow> datetime \<Rightarrow> board \<Rightarrow> (error \<times> board) + board" where
  "fill_up_to_six E now s = fill_loop E now s"

text \<open>The board a call leaves behind, whether it returned or raised.\<close>

definition board_of :: "(error \<times> board) + board \<Rightarrow> board" where
  "board_of r = (case r of Inl (e, s) \<Rightarrow> s | Inr s \<Rightarrow> s)"

section \<open>Loading a schedule\<close>

text \<open>The body of the \<^verbatim>\<open>for item in departures\<close> loop of \<^verbatim>\<open>set_departures\<close>.\<close>

definition make_item :: "platform \<Rightarrow> datetime \<Rightarrow> json \<Rightarrow> error + sched_item" where
  "make_item E now item =
     (case item of
        JDict kvs \<Rightarrow>
          (case parse_today_or_tomorrow_time E now (dget kvs (ascii ''time'') (JStr (ascii ''00:00''))) of
             Inl e \<Rightarrow> Inl e
           | Inr dep_time \<Rightarrow>
               (case delay_secs_of E kvs of
                  Inl e \<Rightarrow> Inl e
                | Inr delay_secs \<Rightarrow>
                    (case add_delay dep_time delay_secs of
                       Inl e \<Rightarrow> Inl e
                     | Inr adj_time \<Rightarrow> Inr \<lparr>raw = kvs, time = adj_time, shown = False\<rparr>)))
      | _ \<Rightarrow> Inl AttributeError)"

text \<open>
  The loop itself; \<open>clk i\<close> is the clock as read while parsing record number \<open>i\<close>. An
  exception leaves in \<^verbatim>\<open>_all_items\<close> what was appended before it.
\<close>

fun build_items :: "platform \<Rightarrow> (nat \<Rightarrow> datetime) \<Rightarrow> nat \<Rightarrow> json list \<Rightarrow> sched_item list
    \<Rightarrow> (error \<times> sched_item list) + sched_item list" where
  "build_items E clk i [] acc = Inr acc"
| "build_items E clk i (item # rest) acc =
     (case make_item E (clk i) item of
        Inl e \<Rightarrow> Inl (e, acc)
      | Inr it \<Rightarrow> build_items E clk (Suc i) rest (acc @ [it]))"

text \<open>
  \<^verbatim>\<open>set_departures\<close>. \<open>now_fill\<close> is the clock read by \<^verbatim>\<open>_fill_up_to_six\<close>.
  \<^verbatim>\<open>list.sort\<close> is stable, as \<open>sort_key\<close> is. When the loop raises, the board is left
  with the partial \<^verbatim>\<open>_all_items\<close> and its old window; when the fill raises, with the
  sorted schedule and the rows built so far.
\<close>

definition set_departures :: "platform \<Rightarrow> (nat \<Rightarrow> datetime) \<Rightarrow> datetime \<Rightarrow> json list \<Rightarrow> board
    \<Rightarrow> (error \<times> board) + board" where
  "set_departures E clk now_fill departures s =
     (case build_items E clk 0 departures [] of
        Inl (e, partial) \<Rightarrow> Inl (e, s\<lparr>all_items := partial\<rparr>)
      | Inr items \<Rightarrow>
          fill_up_to_six E now_fill (s\<lparr>all_items := sort_key time items, model := []\<rparr>))"

section \<open>The tick\<close>

text \<open>
  \<^verbatim>\<open>_thresholds\<close> is whatever the configuration file holds under \<^verbatim>\<open>thresholds\<close>. The
  six values are read at the top of \<^verbatim>\<open>_refresh_statuses\<close>, each with \<^verbatim>\<open>.get\<close> and its
  default and each through \<^verbatim>\<open>int\<close>, in this order; the first that fails raises. A value
  that is not a dictionary has no \<^verbatim>\<open>get\<close>.
\<close>

record limits =
  pre77_sound_before :: int
  arrival_sound_before :: int
  stop_before :: int
  remove_after :: int
  pass_before :: int
  pass_remove_after :: int

definition th_int :: "platform \<Rightarrow> pydict \<Rightarrow> string \<Rightarrow> int \<Rightarrow> error + int" where
  "th_int E kvs k d = py_int E (dget kvs (ascii k) (JInt d))"

definition read_limits :: "platform \<Rightarrow> json \<Rightarrow> error + limits" where
  "read_limits E th =
     (case th of
        JDict kvs \<Rightarrow>
          (case th_int E kvs ''approach_before_secs'' 77 of Inl e \<Rightarrow> Inl e | Inr v1 \<Rightarrow>
          (case th_int E kvs ''arrival_before_secs'' 57 of Inl e \<Rightarrow> Inl e | Inr v2 \<Rightarrow>
          (case th_int E kvs ''stop_before_secs'' 40 of Inl e \<Rightarrow> Inl e | Inr v3 \<Rightarrow>
          (case th_int E kvs ''remove_after_secs'' 10 of Inl e \<Rightarrow> Inl e | Inr v4 \<Rightarrow>
          (case th_int E kvs ''pass_before_secs'' 20 of Inl e \<Rightarrow> Inl e | Inr v5 \<Rightarrow>
          (case th_int E kvs ''pass_remove_after_secs'' 10 of Inl e \<Rightarrow> Inl e | Inr v6 \<Rightarrow>
             Inr \<lparr>pre77_sound_before = v1, arrival_sound_before = v2, stop_before = v3,
                  remove_after = v4, pass_before = v5, pass_remove_after = v6\<rparr>))))))
      | _ \<Rightarrow> Inl AttributeError)"

text \<open>The dictionary \<^verbatim>\<open>MainWindow\<close> passes when the configuration has none.\<close>

definition default_kvs :: pydict where
  "default_kvs =
     [(ascii ''approach_before_secs'', JInt 77), (ascii ''arrival_before_secs'', JInt 57),
      (ascii ''stop_before_secs'', JInt 40), (ascii ''remove_after_secs'', JInt 10),
      (ascii ''pass_before_secs'', JInt 20), (ascii ''pass_remove_after_secs'', JInt 10)]"

definition default_thresholds :: json where
  "default_thresholds = JDict default_kvs"

definition default_limits :: limits where
  "default_limits =
     \<lparr>pre77_sound_before = 77, arrival_sound_before = 57, stop_before = 40,
      remove_after = 10, pass_before = 20, pass_remove_after = 10\<rparr>"

text \<open>
  The removal policy. \<open>None\<close> is \<^verbatim>\<open>to_remove.append(idx); continue\<close>; otherwise the
  entry goes on to the status assignment, with \<^verbatim>\<open>post_depart_at\<close> written if this
  tick started the post-depart phase.
\<close>

definition removal :: "limits \<Rightarrow> datetime \<Rightarrow> rat \<Rightarrow> vis_entry \<Rightarrow> vis_entry option" where
  "removal L now delta e =
     (case (if terminal_here e then dwell_until e else None) of
        Some d \<Rightarrow>
          (if d \<le> now then
             (let e' = (case post_depart_at e of None \<Rightarrow> e\<lparr>post_depart_at := Some now\<rparr> | Some p \<Rightarrow> e);
                  post_elapsed = now - (case post_depart_at e' of None \<Rightarrow> now | Some p \<Rightarrow> p)
              in if of_int (remove_after L) \<le> post_elapsed then None else Some e')
           else Some e)
      | None \<Rightarrow>
          (if (pass_through e \<and> delta \<le> - of_int (pass_remove_after L)) \<or>
              (\<not> pass_through e \<and> delta \<le> - of_int (remove_after L))
           then None else Some e))"

definition on_time_or_delayed :: "vis_entry \<Rightarrow> status" where
  "on_time_or_delayed e = (if \<not> is_delayed e then OnTime else Delayed)"

text \<open>The branch \<^verbatim>\<open>if 0 <= delta\<close>: the status text and the notice.\<close>

definition status_before :: "limits \<Rightarrow> rat \<Rightarrow> vis_entry \<Rightarrow> json option \<Rightarrow> status \<times> json option" where
  "status_before L delta e n =
     (if terminal_here e then
        (if delta \<le> of_int (stop_before L) then (TermStopped, n)
         else if delta \<le> of_int (arrival_sound_before L) then (TermArrived, n)
         else if delta \<le> of_int (pre77_sound_before L) then (TermApproaching, n)
         else (on_time_or_delayed e, n))
      else if pass_through e then
        (if delta \<le> of_int (pre77_sound_before L) then (Approaching, Some (row_platform e))
         else (on_time_or_delayed e, None))
      else
        (if delta \<le> of_int (stop_before L) then (Stopped, n)
         else if delta \<le> of_int (arrival_sound_before L) then (Arrived, n)
         else if delta \<le> of_int (pre77_sound_before L) then (Approaching, n)
         else (on_time_or_delayed e, n)))"

text \<open>
  The block \<^verbatim>\<open># sounds\<close>, which stands inside the branch \<^verbatim>\<open>if 0 <= delta\<close>. The
  strings are the arguments given to \<^verbatim>\<open>on_event\<close>, in order.
\<close>

definition sounds :: "limits \<Rightarrow> rat \<Rightarrow> vis_entry \<Rightarrow> vis_entry \<times> string list" where
  "sounds L delta e =
     (case last_delta e of
        None \<Rightarrow> (e, [])
      | Some last_d \<Rightarrow>
          (let (e1, ev1) =
                 (if of_int (arrival_sound_before L) < last_d \<and> delta \<le> of_int (arrival_sound_before L)
                     \<and> \<not> played_arrival e
                  then (e\<lparr>played_arrival := True\<rparr>, [''arrival'']) else (e, []));
               (e2, ev2) =
                 (if of_int (pre77_sound_before L) < last_d \<and> delta \<le> of_int (pre77_sound_before L)
                     \<and> \<not> played_pre77 e1
                  then (e1\<lparr>played_pre77 := True\<rparr>, [''pre30'']) else (e1, []));
               (e3, ev3) =
                 (if pass_through e2 \<and> 0 < last_d \<and> delta \<le> 0 \<and> \<not> played_pass e2
                  then (e2\<lparr>played_pass := True\<rparr>, [''pass'']) else (e2, []))
           in (e3, ev1 @ ev2 @ ev3)))"

text \<open>The \<^verbatim>\<open>else\<close> branch, \<open>delta < 0\<close>.\<close>

definition status_after :: "limits \<Rightarrow> datetime \<Rightarrow> rat \<Rightarrow> vis_entry \<Rightarrow> json option
    \<Rightarrow> vis_entry \<times> json option \<times> string list" where
  "status_after L now delta e n =
     (if terminal_here e then
        (case dwell_until e of
           Some d \<Rightarrow> (if d \<le> now then (e\<lparr>row_status := Departed\<rparr>, n, [])
                      else (e\<lparr>row_status := TermStopped\<rparr>, n, []))
         | None \<Rightarrow> (e\<lparr>row_status := TermStopped\<rparr>, n, []))
      else if pass_through e then
        (if - of_int (pass_remove_after L) < delta
         then (e\<lparr>row_status := Passed\<rparr>, Some (row_platform e), [])
         else (e\<lparr>row_status := Passed\<rparr>, None, []))
      else
        (if \<not> played_departed e
         then (e\<lparr>row_status := Departed, played_departed := True\<rparr>, n, [''depart''])
         else (e\<lparr>row_status := Departed\<rparr>, n, [])))"

text \<open>
  The status assignment of an entry that was not removed, up to
  \<^verbatim>\<open>entry["last_delta"] = delta\<close>.
\<close>

definition assign :: "limits \<Rightarrow> datetime \<Rightarrow> rat \<Rightarrow> vis_entry \<Rightarrow> json option
    \<Rightarrow> vis_entry \<times> json option \<times> string list" where
  "assign L now delta e n =
     (let (e', n', ev) =
            (if 0 \<le> delta then
               (let (st, n1) = status_before L delta e n;
                    (e1, ev1) = sounds L delta (e\<lparr>row_status := st\<rparr>)
                in (e1, n1, ev1))
             else status_after L now delta e n)
      in (e'\<lparr>last_delta := Some delta\<rparr>, n', ev))"

text \<open>
  One pass of the \<^verbatim>\<open>for idx, entry in enumerate(self._model)\<close> loop: \<open>None\<close> when the
  entry is put on \<^verbatim>\<open>to_remove\<close>, else the entry as the pass leaves it; the notice after
  the pass; the events emitted.
\<close>

definition eval_entry :: "limits \<Rightarrow> datetime \<Rightarrow> vis_entry \<Rightarrow> json option
    \<Rightarrow> vis_entry option \<times> json option \<times> string list" where
  "eval_entry L now e n =
     (let dep_time = e_time e;
          delta = dep_time - now;
          e1 = (if terminal_here e \<and> dwell_until e = None \<and> delta \<le> 0
                then e\<lparr>dwell_until := Some (dep_time + 60)\<rparr> else e)
      in case removal L now delta e1 of
           None \<Rightarrow> (None, n, [])
         | Some e2 \<Rightarrow> (let (e3, n', ev) = assign L now delta e2 n in (Some e3, n', ev)))"

text \<open>
  The whole loop followed by the deletion of the indices of \<^verbatim>\<open>to_remove\<close>: the entries
  kept, in order; the notice, written by each entry in turn; all events in order.
\<close>

fun refresh_loop :: "limits \<Rightarrow> datetime \<Rightarrow> vis_entry list \<Rightarrow> json option
    \<Rightarrow> vis_entry list \<times> json option \<times> string list" where
  "refresh_loop L now [] n = ([], n, [])"
| "refresh_loop L now (e # es) n =
     (let (r, n1, ev1) = eval_entry L now e n;
          (es', n2, ev2) = refresh_loop L now es n1
      in ((case r of None \<Rightarrow> es' | Some e' \<Rightarrow> e' # es'), n2, ev1 @ ev2))"

text \<open>The method from the loop to the deletion of the removed rows.\<close>

definition evaluate_rows :: "limits \<Rightarrow> datetime \<Rightarrow> board \<Rightarrow> board \<times> string list" where
  "evaluate_rows L now s =
     (let (m, n, ev) = refresh_loop L now (model s) (notice s)
      in (s\<lparr>model := m, notice := n\<rparr>, ev))"

text \<open>
  \<^verbatim>\<open>_refresh_statuses\<close>. \<open>cfg\<close> is the attribute \<^verbatim>\<open>_thresholds\<close>, \<open>None\<close> while it is
  not set (the method then returns at once). \<open>now\<close> is the clock read by the method,
  \<open>now_fill\<close> the clock read by \<^verbatim>\<open>_fill_up_to_six\<close>, which is called on both branches of
  the final \<^verbatim>\<open>if to_remove\<close>. The result holds the board and the arguments \<^verbatim>\<open>on_event\<close>
  was called with; under \<open>Inl\<close> also the exception, raised either by the reading of the
  thresholds, before anything is changed, or by the fill, after the rows were evaluated and
  their events emitted.
\<close>

definition refresh_statuses :: "platform \<Rightarrow> json option \<Rightarrow> datetime \<Rightarrow> datetime \<Rightarrow> board
    \<Rightarrow> (error \<times> board \<times> string list) + (board \<times> string list)" where
  "refresh_statuses E cfg now now_fill s =
     (case cfg of
        None \<Rightarrow> Inr (s, [])
      | Some th \<Rightarrow>
          (case read_limits E th of
             Inl e \<Rightarrow> Inl (e, s, [])
           | Inr L \<Rightarrow>
               (let (s1, ev) = evaluate_rows L now s
                in case fill_up_to_six E now_fill s1 of
                     Inl (e, s2) \<Rightarrow> Inl (e, s2, ev)
                   | Inr s2 \<Rightarrow> Inr (s2, ev))))"

definition tick_board :: "(error \<times> board \<times> string list) + (board \<times> string list) \<Rightarrow> board" where
  "tick_board r = (case r of Inl (e, s, ev) \<Rightarrow> s | Inr (s, ev) \<Rightarrow> s)"

definition tick_events :: "(error \<times> board \<times> string list) + (board \<times> string list) \<Rightarrow> string list" where
  "tick_events r = (case r of Inl (e, s, ev) \<Rightarrow> ev | Inr (s, ev) \<Rightarrow> ev)"

section \<open>Runs of the board\<close>

text \<open>
  The board is driven by loads and by the 1 Hz timer. A call that raises leaves the board
  as the exception found it, and the next call starts from there.
\<close>

datatype step = Load "nat \<Rightarrow> datetime" datetime "json list" | Tick datetime datetime

fun do_step :: "platform \<Rightarrow> json option \<Rightarrow> board \<Rightarrow> step \<Rightarrow> board" where
  "do_step E cfg s (Load clk now_fill departures) = board_of (set_departures E clk now_fill departures s)"
| "do_step E cfg s (Tick now now_fill) = tick_board (refresh_statuses E cfg now now_fill s)"

definition run :: "platform \<Rightarrow> json option \<Rightarrow> board \<Rightarrow> step list \<Rightarrow> board" where
  "run E cfg s steps = foldl (do_step E cfg) s steps"

section \<open>What the claims speak about\<close>

text \<open>
  The contract of the fill step in the words of the specification: the first \<open>k\<close> entries of
  the schedule that are not yet shown and not older than the grace period are marked shown.
\<close>

fun promote :: "nat \<Rightarrow> datetime \<Rightarrow> sched_item list \<Rightarrow> sched_item list" where
  "promote 0 now its = its"
| "promote (Suc k) now [] = []"
| "promote (Suc k) now (it # its) =
     (if eligible now it then it\<lparr>shown := True\<rparr> # promote k now its
      else it # promote (Suc k) now its)"

text \<open>
  The entries a fill has to promote: the first eligible ones, as many as the window lacks.
  Those it does promote: the ones before the first whose row cannot be built.
\<close>

definition candidates :: "datetime \<Rightarrow> board \<Rightarrow> sched_item list" where
  "candidates now s = take (6 - length (model s)) (filter (eligible now) (all_items s))"

definition row_builds :: "platform \<Rightarrow> sched_item \<Rightarrow> bool" where
  "row_builds E it \<longleftrightarrow> create_row_from_item E (raw it) = None"

definition built :: "platform \<Rightarrow> datetime \<Rightarrow> board \<Rightarrow> sched_item list" where
  "built E now s = takeWhile (row_builds E) (candidates now s)"

text \<open>
  What the loop leaves behind, and whether it returns: the rows of the entries in \<open>built\<close>
  are appended and exactly those entries are marked; it raises iff a candidate's row cannot
  be built, with the exception of the first such row.
\<close>

definition fill_error :: "platform \<Rightarrow> datetime \<Rightarrow> board \<Rightarrow> error option" where
  "fill_error E now s =
     (case dropWhile (row_builds E) (candidates now s) of
        [] \<Rightarrow> None
      | it # its \<Rightarrow> create_row_from_item E (raw it))"

text \<open>
  The entries of a load: entry number \<open>j\<close> is made from record number \<open>j\<close> with the clock
  as read for it.
\<close>

definition made :: "platform \<Rightarrow> (nat \<Rightarrow> datetime) \<Rightarrow> json list \<Rightarrow> sched_item list \<Rightarrow> bool" where
  "made E clk departures its \<longleftrightarrow>
     length its = length departures \<and>
     (\<forall>j<length departures. make_item E (clk j) (departures ! j) = Inr (its ! j))"

text \<open>
  A schedule entry and the window entry made from it carry the same record and the same
  effective time.
\<close>

definition item_key :: "sched_item \<Rightarrow> pydict \<times> datetime" where
  "item_key it = (raw it, time it)"

definition entry_key :: "vis_entry \<Rightarrow> pydict \<times> datetime" where
  "entry_key e = (e_raw e, e_time e)"

definition unshown :: "sched_item list \<Rightarrow> sched_item list" where
  "unshown its = filter (\<lambda>it. \<not> shown it) its"

text \<open>One schedule entry before and after some steps: same entry, flag not reset.\<close>

definition flag_kept :: "sched_item \<Rightarrow> sched_item \<Rightarrow> bool" where
  "flag_kept a b \<longleftrightarrow> raw b = raw a \<and> time b = time a \<and> (shown a \<longrightarrow> shown b)"

text \<open>
  The rows a fill appends to the window; the rows of the window a tick keeps, and those it
  appends.
\<close>

definition promoted :: "platform \<Rightarrow> datetime \<Rightarrow> board \<Rightarrow> vis_entry list" where
  "promoted E now s = drop (length (model s)) (model (board_of (fill_up_to_six E now s)))"

definition tick_survivors :: "platform \<Rightarrow> json option \<Rightarrow> datetime \<Rightarrow> board \<Rightarrow> vis_entry list" where
  "tick_survivors E cfg now s =
     (case cfg of
        None \<Rightarrow> model s
      | Some th \<Rightarrow>
          (case read_limits E th of
             Inl e \<Rightarrow> model s
           | Inr L \<Rightarrow> fst (refresh_loop L now (model s) (notice s))))"

definition tick_promoted :: "platform \<Rightarrow> json option \<Rightarrow> datetime \<Rightarrow> datetime \<Rightarrow> board \<Rightarrow> vis_entry list" where
  "tick_promoted E cfg now now_fill s =
     (case cfg of
        None \<Rightarrow> []
      | Some th \<Rightarrow>
          (case read_limits E th of
             Inl e \<Rightarrow> []
           | Inr L \<Rightarrow> promoted E now_fill (fst (evaluate_rows L now s))))"

text \<open>
  All rows appended to the window over a sequence of ticks, each given by its two clock
  readings, and the board after them.
\<close>

fun promotions :: "platform \<Rightarrow> json option \<Rightarrow> board \<Rightarrow> (datetime \<times> datetime) list \<Rightarrow> vis_entry list" where
  "promotions E cfg s [] = []"
| "promotions E cfg s ((now, now_fill) # ts) =
     tick_promoted E cfg now now_fill s
       @ promotions E cfg (tick_board (refresh_statuses E cfg now now_fill s)) ts"

definition ticks :: "(datetime \<times> datetime) list \<Rightarrow> step list" where
  "ticks ts = map (\<lambda>(now, now_fill). Tick now now_fill) ts"

text \<open>The identifiers the board passes to \<^verbatim>\<open>on_event\<close>.\<close>

definition event_keys :: "string set" where
  "event_keys = {''arrival'', ''pre30'', ''depart'', ''pass''}"

text \<open>The entry as the removal policy sees it: a terminal entry whose time has come gets its dwell.\<close>

definition with_dwell :: "datetime \<Rightarrow> vis_entry \<Rightarrow> vis_entry" where
  "with_dwell now e =
     (if terminal_here e \<and> dwell_until e = None \<and> e_time e - now \<le> 0
      then e\<lparr>dwell_until := Some (e_time e + 60)\<rparr> else e)"

section \<open>Scenarios\<close>

text \<open>
  The scenarios use ASCII digits, give strings to the labels and have strings, where they
  have anything, as type and via. For them any platform behaves as this one: its digits
  are the ASCII digits, its limit is Python's default, its \<^verbatim>\<open>str\<close> returns, and its row
  constructor takes exactly strings.
\<close>

definition ascii_platform :: platform where
  "ascii_platform =
     \<lparr>digit_of = (\<lambda>c. if 48 \<le> c \<and> c \<le> 57 then Some (int c - 48) else None),
      max_str_digits = 4300,
      str_err = (\<lambda>v. None),
      ctor_ok = (\<lambda>t d l p. is_str t \<and> is_str d \<and> is_str l \<and> is_str p)\<rparr>"

text \<open>
  A midnight, 738000 days after the first day of the calendar, and the clock readings of that
  day.
\<close>

definition day0 :: datetime where
  "day0 = 738000 * 86400"

definition clock :: "int \<Rightarrow> int \<Rightarrow> rat \<Rightarrow> datetime" where
  "clock h m sec = day0 + of_int h * 3600 + of_int m * 60 + sec"

text \<open>
  The records of the scenarios: a regular train, one that terminates here, one that passes,
  one that is 7500 seconds late, and one whose stops are numbers.
\<close>

definition rec_regular :: json where
  "rec_regular = JDict [(ascii ''time'', JStr (ascii ''08:00'')), (ascii ''delay_secs'', JInt 0)]"

definition rec_terminal :: json where
  "rec_terminal = JDict [(ascii ''time'', JStr (ascii ''09:00'')), (ascii ''type'', JStr kaisou)]"

definition rec_pass :: json where
  "rec_pass =
     JDict [(ascii ''time'', JStr (ascii ''10:00'')), (ascii ''pass_through'', JBool True),
            (ascii ''platform'', JStr (ascii ''2''))]"

definition rec_late :: json where
  "rec_late = JDict [(ascii ''time'', JStr (ascii ''08:00'')), (ascii ''delay_secs'', JInt 7500)]"

definition rec_stops :: json where
  "rec_stops =
     JDict [(ascii ''time'', JStr (ascii ''08:00'')), (ascii ''stops'', JList [JInt 1, JInt 2])]"

text \<open>The schedule entries a load at 07:00:00 makes of them.\<close>

definition item_regular :: sched_item where
  "item_regular =
     \<lparr>raw = [(ascii ''time'', JStr (ascii ''08:00'')), (ascii ''delay_secs'', JInt 0)],
      time = clock 8 0 0, shown = False\<rparr>"

definition item_terminal :: sched_item where
  "item_terminal =
     \<lparr>raw = [(ascii ''time'', JStr (ascii ''09:00'')), (ascii ''type'', JStr kaisou)],
      time = clock 9 0 0, shown = False\<rparr>"

definition item_pass :: sched_item where
  "item_pass =
     \<lparr>raw = [(ascii ''time'', JStr (ascii ''10:00'')), (ascii ''pass_through'', JBool True),
             (ascii ''platform'', JStr (ascii ''2''))],
      time = clock 10 0 0, shown = False\<rparr>"

definition item_late :: sched_item where
  "item_late =
     \<lparr>raw = [(ascii ''time'', JStr (ascii ''08:00'')), (ascii ''delay_secs'', JInt 7500)],
      time = clock 10 5 0, shown = False\<rparr>"

definition item_stops :: sched_item where
  "item_stops =
     \<lparr>raw = [(ascii ''time'', JStr (ascii ''08:00'')), (ascii ''stops'', JList [JInt 1, JInt 2])],
      time = clock 8 0 0, shown = False\<rparr>"

text \<open>The thresholds with \<^verbatim>\<open>pass_before_secs\<close> set to null.\<close>

definition null_pass_before :: json where
  "null_pass_before =
     JDict [(ascii ''approach_before_secs'', JInt 77), (ascii ''arrival_before_secs'', JInt 57),
            (ascii ''stop_before_secs'', JInt 40), (ascii ''remove_after_secs'', JInt 10),
            (ascii ''pass_before_secs'', JNull), (ascii ''pass_remove_after_secs'', JInt 10)]"

text \<open>
  The board after loading one record at 07:00:00, and a tick of it with the default
  thresholds: the board it leaves and the events it emits.
\<close>

definition at7 :: "nat \<Rightarrow> datetime" where
  "at7 i = clock 7 0 0"

definition loaded :: "json \<Rightarrow> board" where
  "loaded r = do_step ascii_platform (Some default_thresholds) init_board (Load at7 (clock 7 0 0) [r])"

definition tick_at :: "datetime \<Rightarrow> board \<Rightarrow> board \<times> string list" where
  "tick_at now s =
     (tick_board (refresh_statuses ascii_platform (Some default_thresholds) now now s),
      tick_events (refresh_statuses ascii_platform (Some default_thresholds) now now s))"

text \<open>A thresholds dictionary without its entries for \<^verbatim>\<open>pass_before_secs\<close>.\<close>

definition without_pass_before :: "json \<Rightarrow> pydict" where
  "without_pass_before th =
     (case th of JDict kvs \<Rightarrow> filter (\<lambda>(k, v). k \<noteq> ascii ''pass_before_secs'') kvs | _ \<Rightarrow> [])"

text \<open>The default thresholds with \<^verbatim>\<open>pass_before_secs\<close> given as the string \<^verbatim>\<open>5\<close>.\<close>

definition string_pass_before :: pydict where
  "string_pass_before =
     [(ascii ''approach_before_secs'', JInt 77), (ascii ''arrival_before_secs'', JInt 57),
      (ascii ''stop_before_secs'', JInt 40), (ascii ''remove_after_secs'', JInt 10),
      (ascii ''pass_before_secs'', JStr (ascii ''5'')), (ascii ''pass_remove_after_secs'', JInt 10)]"

text \<open>The board after loading the pass-through, the late and the terminal record at 07:00.\<close>

definition three_loaded :: board where
  "three_loaded =
     \<lparr>all_items = [item_terminal\<lparr>shown := True\<rparr>, item_pass\<lparr>shown := True\<rparr>, item_late\<lparr>shown := True\<rparr>],
      model = [new_entry ascii_platform item_terminal, new_entry ascii_platform item_pass,
               new_entry ascii_platform item_late],
      notice = None\<rparr>"
section \<open>The fill loop\<close>

lemma not_eligible_shown [simp]: "\<not> eligible now (it\<lparr>shown := True\<rparr>)"
  by (simp add: eligible_def)

lemma find_next_None: "find_next now its = None \<longleftrightarrow> filter (eligible now) its = []"
  by (induction its) auto

lemma find_next_filter:
  "find_next now its = Some i \<Longrightarrow>
     filter (eligible now) its = its ! i # filter (eligible now) (its[i := (its ! i)\<lparr>shown := True\<rparr>])"
  by (induction its arbitrary: i) (auto split: if_splits)

lemma promote_not_eligible: "filter (eligible now) its = [] \<Longrightarrow> promote k now its = its"
  by (induction k now its rule: promote.induct) (auto split: if_splits)

lemma promote_cons_not: "\<not> eligible now it \<Longrightarrow> promote k now (it # its) = it # promote k now its"
  by (cases k) auto

lemma find_next_promote:
  "find_next now its = Some i \<Longrightarrow>
     promote (Suc k) now its = promote k now (its[i := (its ! i)\<lparr>shown := True\<rparr>])"
  by (induction its arbitrary: i) (auto split: if_splits simp: promote_cons_not)

lemma fill_loop_char:
  "all_items (board_of (fill_loop E now s)) = promote (length (built E now s)) now (all_items s) \<and>
   model (board_of (fill_loop E now s)) = model s @ map (new_entry E) (built E now s) \<and>
   notice (board_of (fill_loop E now s)) = notice s \<and>
   (case fill_loop E now s of Inl (e, s') \<Rightarrow> fill_error E now s = Some e
     | Inr s' \<Rightarrow> fill_error E now s = None)"
proof (induction E now s rule: fill_loop.induct)
  case (1 E now s)
  show ?case
  proof (cases "length (model s) < 6")
    case False
    then show ?thesis
      by (simp add: fill_loop.simps [of E now s] board_of_def built_def candidates_def fill_error_def)
  next
    case True
    then obtain k where k: "6 - length (model s) = Suc k" by (cases "6 - length (model s)") auto
    show ?thesis
    proof (cases "find_next now (all_items s)")
      case None
      then have "filter (eligible now) (all_items s) = []" by (simp add: find_next_None)
      then show ?thesis using True None
        by (simp add: fill_loop.simps [of E now s] board_of_def built_def candidates_def fill_error_def)
    next
      case (Some i)
      let ?it = "all_items s ! i"
      let ?s' = "s\<lparr>model := model s @ [new_entry E ?it],
                  all_items := (all_items s)[i := ?it\<lparr>shown := True\<rparr>]\<rparr>"
      have k5: "5 - length (model s) = k" using k by simp
      have c: "candidates now s = ?it # candidates now ?s'"
        using k k5 find_next_filter [OF Some] by (simp add: candidates_def)
      show ?thesis
      proof (cases "create_row_from_item E (raw ?it)")
        case (Some e)
        then have nb: "\<not> row_builds E ?it" by (simp add: row_builds_def)
        have "fill_loop E now s = Inl (e, s)"
          using True \<open>find_next now (all_items s) = Some i\<close> Some
          by (simp add: fill_loop.simps [of E now s])
        then show ?thesis using nb c Some
          by (simp add: board_of_def built_def fill_error_def)
      next
        case None
        then have b: "row_builds E ?it" by (simp add: row_builds_def)
        have eq: "fill_loop E now s = fill_loop E now ?s'"
          using True \<open>find_next now (all_items s) = Some i\<close> None
          by (simp add: fill_loop.simps [of E now s])
        have bl: "built E now s = ?it # built E now ?s'" using b c by (simp add: built_def)
        have fe: "fill_error E now s = fill_error E now ?s'" using b c by (simp add: fill_error_def)
        from "1.IH" [OF True \<open>find_next now (all_items s) = Some i\<close> None]
        show ?thesis
          unfolding eq bl fe
          using find_next_promote [OF \<open>find_next now (all_items s) = Some i\<close>, of "length (built E now ?s')"]
          by simp
      qed
    qed
  qed
qed

lemma fill_all_items:
  "all_items (board_of (fill_up_to_six E now s)) = promote (length (built E now s)) now (all_items s)"
  by (simp add: fill_up_to_six_def fill_loop_char)

lemma fill_model:
  "model (board_of (fill_up_to_six E now s)) = model s @ map (new_entry E) (built E now s)"
  by (simp add: fill_up_to_six_def fill_loop_char)

lemma fill_notice: "notice (board_of (fill_up_to_six E now s)) = notice s"
  by (simp add: fill_up_to_six_def fill_loop_char)

lemma fill_Inr: "fill_up_to_six E now s = Inr s' \<Longrightarrow> fill_error E now s = None"
  using fill_loop_char [of E now s] by (simp add: fill_up_to_six_def)

lemma fill_Inl: "fill_up_to_six E now s = Inl (e, s') \<Longrightarrow> fill_error E now s = Some e"
  using fill_loop_char [of E now s] by (simp add: fill_up_to_six_def)

lemma row_builds_not_None: "\<not> row_builds E it \<Longrightarrow> create_row_from_item E (raw it) \<noteq> None"
  by (simp add: row_builds_def)

lemma fill_error_None: "fill_error E now s = None \<longleftrightarrow> list_all (row_builds E) (candidates now s)"
proof -
  have "fill_error E now s = None \<longleftrightarrow> dropWhile (row_builds E) (candidates now s) = []"
  proof (cases "dropWhile (row_builds E) (candidates now s)")
    case Nil
    show ?thesis unfolding fill_error_def Nil by simp
  next
    case (Cons it its)
    then have "\<not> row_builds E it" using hd_dropWhile [of "row_builds E" "candidates now s"] by simp
    then show ?thesis using Cons by (simp add: fill_error_def row_builds_def)
  qed
  then show ?thesis by (simp add: dropWhile_eq_Nil_conv list_all_iff)
qed

lemma fill_returns: "(\<exists>s'. fill_up_to_six E now s = Inr s') \<longleftrightarrow> list_all (row_builds E) (candidates now s)"
proof (cases "fill_up_to_six E now s")
  case (Inl a)
  obtain e s' where "a = (e, s')" by (cases a)
  then show ?thesis using Inl fill_Inl [of E now s e s'] fill_error_None [of E now s] by auto
next
  case (Inr s')
  then show ?thesis using fill_Inr [of E now s s'] fill_error_None [of E now s] by auto
qed

lemma built_all: "list_all (row_builds E) (candidates now s) \<Longrightarrow> built E now s = candidates now s"
  by (simp add: built_def list_all_iff)

lemma built_take: "built E now s = take (length (built E now s)) (filter (eligible now) (all_items s))"
proof -
  have "built E now s = take (length (built E now s)) (candidates now s)"
    unfolding built_def by (rule takeWhile_eq_take)
  also have "\<dots> = take (min (length (built E now s)) (6 - length (model s))) (filter (eligible now) (all_items s))"
    by (simp add: candidates_def)
  also have "length (built E now s) \<le> 6 - length (model s)"
    using length_takeWhile_le [of "row_builds E" "candidates now s"]
    by (simp add: built_def candidates_def)
  then have "min (length (built E now s)) (6 - length (model s)) = length (built E now s)" by simp
  finally show ?thesis .
qed

lemma built_length: "length (built E now s) \<le> 6 - length (model s)"
  using length_takeWhile_le [of "row_builds E" "candidates now s"]
  by (simp add: built_def candidates_def)



lemma map_raw_promote: "map raw (promote k now its) = map raw its"
  by (induction k now its rule: promote.induct) auto

lemma map_item_key_promote: "map item_key (promote k now its) = map item_key its"
  by (induction k now its rule: promote.induct) (auto simp: item_key_def)

lemma promote_flag_kept: "list_all2 flag_kept its (promote k now its)"
  by (induction k now its rule: promote.induct)
     (auto simp: flag_kept_def list_all2_refl intro!: list.rel_refl)

lemma promote_accounting:
  "mset (map item_key (unshown (promote k now its)))
     + mset (map item_key (take k (filter (eligible now) its)))
   = mset (map item_key (unshown its))"
  by (induction k now its rule: promote.induct)
     (auto simp: unshown_def item_key_def eligible_def)

lemma entry_key_new_entry: "entry_key (new_entry E it) = item_key it"
  by (simp add: entry_key_def item_key_def new_entry_def)

lemma promoted_eq: "promoted E now s = map (new_entry E) (built E now s)"
  by (simp add: promoted_def fill_model)

lemma fill_accounting:
  "mset (map item_key (unshown (all_items (board_of (fill_up_to_six E now s)))))
     + mset (map entry_key (promoted E now s))
   = mset (map item_key (unshown (all_items s)))"
proof -
  have "map entry_key (promoted E now s) = map item_key (built E now s)"
    by (simp add: promoted_eq entry_key_new_entry comp_def)
  also have "\<dots> = map item_key (take (length (built E now s)) (filter (eligible now) (all_items s)))"
    using built_take [of E now s] by simp
  finally show ?thesis
    using promote_accounting [of "length (built E now s)" now "all_items s"]
    by (simp add: fill_all_items)
qed

lemma fill_length:
  "length (model s) \<le> 6 \<Longrightarrow> length (model (board_of (fill_up_to_six E now s))) \<le> 6"
  using built_length [of E now s] by (simp add: fill_model)


section \<open>The window over a run\<close>

lemma refresh_loop_length: "length (fst (refresh_loop L now es n)) \<le> length es"
proof (induction es arbitrary: n)
  case Nil
  then show ?case by simp
next
  case (Cons e es)
  have "length (fst (refresh_loop L now es (fst (snd (eval_entry L now e n))))) \<le> length es"
    by (rule Cons.IH)
  then show ?case by (simp add: split_def Let_def split: option.splits)
qed

lemma evaluate_rows_all_items: "all_items (fst (evaluate_rows L now s)) = all_items s"
  by (simp add: evaluate_rows_def split_def Let_def)

lemma evaluate_rows_model:
  "model (fst (evaluate_rows L now s)) = fst (refresh_loop L now (model s) (notice s))"
  by (simp add: evaluate_rows_def split_def Let_def)

lemma tick_board_eq:
  "tick_board (refresh_statuses E cfg now now_fill s) =
     (case cfg of
        None \<Rightarrow> s
      | Some th \<Rightarrow>
          (case read_limits E th of
             Inl e \<Rightarrow> s
           | Inr L \<Rightarrow> board_of (fill_up_to_six E now_fill (fst (evaluate_rows L now s)))))"
  by (simp add: refresh_statuses_def tick_board_def board_of_def split_def Let_def
      split: option.splits sum.splits)

lemma tick_length:
  assumes "length (model s) \<le> 6"
  shows "length (model (tick_board (refresh_statuses E cfg now now_fill s))) \<le> 6"
proof (cases cfg)
  case None
  then show ?thesis using assms by (simp add: tick_board_eq)
next
  case (Some th)
  show ?thesis
  proof (cases "read_limits E th")
    case (Inl e)
    then show ?thesis using assms Some by (simp add: tick_board_eq)
  next
    case (Inr L)
    have "length (model (fst (evaluate_rows L now s))) \<le> 6"
      using refresh_loop_length [of L now "model s" "notice s"] assms
      by (simp add: evaluate_rows_model)
    then show ?thesis using Some Inr by (simp add: tick_board_eq fill_length)
  qed
qed

lemma load_length:
  assumes "length (model s) \<le> 6"
  shows "length (model (do_step E cfg s (Load clk now_fill departures))) \<le> 6"
proof (cases "build_items E clk 0 departures []")
  case (Inl a)
  then show ?thesis using assms by (cases a) (simp add: set_departures_def board_of_def)
next
  case (Inr its)
  then show ?thesis by (simp add: set_departures_def fill_length)
qed

lemma do_step_length:
  assumes "length (model s) \<le> 6"
  shows "length (model (do_step E cfg s st)) \<le> 6"
proof (cases st)
  case (Load clk now_fill departures)
  then show ?thesis using load_length [OF assms] by simp
next
  case (Tick now now_fill)
  then show ?thesis using tick_length [OF assms] by simp
qed

lemma run_length: "length (model s) \<le> 6 \<Longrightarrow> length (model (run E cfg s steps)) \<le> 6"
  unfolding run_def by (induction steps arbitrary: s) (simp_all add: do_step_length)

lemma tick_accounting:
  "mset (map item_key (unshown (all_items (tick_board (refresh_statuses E cfg now now_fill s)))))
     + mset (map entry_key (tick_promoted E cfg now now_fill s))
   = mset (map item_key (unshown (all_items s)))"
proof (cases cfg)
  case None
  then show ?thesis by (simp add: tick_board_eq tick_promoted_def)
next
  case (Some th)
  show ?thesis
  proof (cases "read_limits E th")
    case (Inl e)
    then show ?thesis using Some by (simp add: tick_board_eq tick_promoted_def)
  next
    case (Inr L)
    then show ?thesis
      using Some fill_accounting [of E now_fill "fst (evaluate_rows L now s)"]
      by (simp add: tick_board_eq tick_promoted_def evaluate_rows_all_items)
  qed
qed

lemma flag_kept_refl: "list_all2 flag_kept its its"
  by (simp add: list_all2_refl flag_kept_def)

lemma flag_kept_trans:
  "list_all2 flag_kept xs ys \<Longrightarrow> list_all2 flag_kept ys zs \<Longrightarrow> list_all2 flag_kept xs zs"
proof -
  assume a: "list_all2 flag_kept xs ys" "list_all2 flag_kept ys zs"
  have "\<And>a b c. flag_kept a b \<Longrightarrow> flag_kept b c \<Longrightarrow> flag_kept a c"
    by (simp add: flag_kept_def)
  then show ?thesis using a list_all2_trans [of flag_kept flag_kept flag_kept xs ys zs] by blast
qed

lemma tick_flag_kept:
  "list_all2 flag_kept (all_items s) (all_items (tick_board (refresh_statuses E cfg now now_fill s)))"
proof (cases cfg)
  case None
  then show ?thesis by (simp add: tick_board_eq flag_kept_refl)
next
  case (Some th)
  show ?thesis
  proof (cases "read_limits E th")
    case (Inl e)
    then show ?thesis using Some by (simp add: tick_board_eq flag_kept_refl)
  next
    case (Inr L)
    then show ?thesis
      using Some promote_flag_kept [of "all_items s"]
      by (simp add: tick_board_eq fill_all_items evaluate_rows_all_items)
  qed
qed

lemma run_ticks_Cons:
  "run E cfg s (ticks ((now, now_fill) # ts)) =
     run E cfg (tick_board (refresh_statuses E cfg now now_fill s)) (ticks ts)"
  by (simp add: run_def ticks_def)

lemma run_ticks_flag_kept: "list_all2 flag_kept (all_items s) (all_items (run E cfg s (ticks ts)))"
proof (induction ts arbitrary: s)
  case Nil
  then show ?case by (simp add: run_def ticks_def flag_kept_refl)
next
  case (Cons t ts)
  obtain now now_fill where t: "t = (now, now_fill)" by (cases t)
  show ?case
    unfolding t run_ticks_Cons
    using flag_kept_trans [OF tick_flag_kept Cons.IH] .
qed

lemma run_ticks_accounting:
  "mset (map item_key (unshown (all_items (run E cfg s (ticks ts)))))
     + mset (map entry_key (promotions E cfg s ts))
   = mset (map item_key (unshown (all_items s)))"
proof (induction ts arbitrary: s)
  case Nil
  then show ?case by (simp add: run_def ticks_def)
next
  case (Cons t ts)
  obtain now now_fill where t: "t = (now, now_fill)" by (cases t)
  show ?case
    unfolding t run_ticks_Cons
    using Cons.IH [of "tick_board (refresh_statuses E cfg now now_fill s)"]
      tick_accounting [of E cfg now now_fill s]
    by (simp add: ac_simps)
qed

lemma tick_model:
  "model (tick_board (refresh_statuses E cfg now now_fill s)) =
     tick_survivors E cfg now s @ tick_promoted E cfg now now_fill s"
  by (simp add: tick_board_eq tick_survivors_def tick_promoted_def promoted_eq fill_model
      evaluate_rows_model split: option.splits sum.splits)

section \<open>Loading\<close>

lemma make_item_unshown: "make_item E now item = Inr it \<Longrightarrow> \<not> shown it"
  by (auto simp: make_item_def split: json.splits sum.splits)


lemma make_item_dict: "make_item E now item = Inr it \<Longrightarrow> item = JDict (raw it)"
  by (auto simp: make_item_def split: json.splits sum.splits)

lemma build_items_made:
  assumes "build_items E clk i departures acc = Inr its"
  shows "\<exists>new. its = acc @ new \<and> length new = length departures
           \<and> (\<forall>j<length departures. make_item E (clk (i + j)) (departures ! j) = Inr (new ! j))"
  using assms
proof (induction departures arbitrary: i acc)
  case Nil
  then show ?case by simp
next
  case (Cons item rest)
  from Cons.prems obtain it where it: "make_item E (clk i) item = Inr it"
    and b: "build_items E clk (Suc i) rest (acc @ [it]) = Inr its"
    by (auto split: sum.splits)
  from Cons.IH [OF b] obtain new where new: "its = (acc @ [it]) @ new" "length new = length rest"
    "\<forall>j<length rest. make_item E (clk (Suc i + j)) (rest ! j) = Inr (new ! j)" by blast
  have "\<forall>j<length (item # rest). make_item E (clk (i + j)) ((item # rest) ! j) = Inr ((it # new) ! j)"
  proof (intro allI impI)
    fix j assume "j < length (item # rest)"
    then show "make_item E (clk (i + j)) ((item # rest) ! j) = Inr ((it # new) ! j)"
      using it new(3) by (cases j) auto
  qed
  then show ?case using new(1,2) by (intro exI [of _ "it # new"]) simp
qed

lemma build_items_made0: "build_items E clk 0 departures [] = Inr its \<Longrightarrow> made E clk departures its"
  using build_items_made [of E clk 0 departures "[]" its] by (auto simp: made_def)

lemma made_unshown:
  assumes "made E clk departures its"
  shows "\<forall>it\<in>set its. \<not> shown it"
proof
  fix it assume "it \<in> set its"
  note m = assms
  from \<open>it \<in> set its\<close> obtain j where j: "j < length its" "its ! j = it" by (auto simp: in_set_conv_nth)
  then have "make_item E (clk j) (departures ! j) = Inr it" using m by (simp add: made_def)
  then show "\<not> shown it" by (rule make_item_unshown)
qed


lemma e_time_new_entry [simp]: "e_time (new_entry E it) = time it"
  by (simp add: new_entry_def)

lemma e_time_new_entry_comp [simp]: "e_time \<circ> new_entry E = time"
  by (rule ext) simp

lemma set_departures_Inr:
  assumes "set_departures E clk now_fill departures s = Inr s'"
  obtains its where "build_items E clk 0 departures [] = Inr its"
    and "fill_up_to_six E now_fill (s\<lparr>all_items := sort_key time its, model := []\<rparr>) = Inr s'"
  using assms by (auto simp: set_departures_def split: sum.splits prod.splits)






lemma row_built_delay: "create_row_from_item E item = None \<Longrightarrow> \<exists>n. delay_secs_of E item = Inr n"
  by (auto simp: create_row_from_item_def split: if_splits sum.splits)

lemma unshown_all: "\<forall>it\<in>set its. \<not> shown it \<Longrightarrow> unshown its = its"
  by (simp add: unshown_def)

lemma load_accounting:
  assumes "set_departures E clk now_fill departures s = Inr s0"
  shows "mset (map entry_key (model s0)) + mset (map item_key (unshown (all_items s0)))
         = mset (map item_key (all_items s0))"
proof -
  from assms obtain its where b: "build_items E clk 0 departures [] = Inr its" and
    f: "fill_up_to_six E now_fill (s\<lparr>all_items := sort_key time its, model := []\<rparr>) = Inr s0"
    by (rule set_departures_Inr)
  let ?s1 = "s\<lparr>all_items := sort_key time its, model := []\<rparr>"
  have s0: "s0 = board_of (fill_up_to_six E now_fill ?s1)" using f by (simp add: board_of_def)
  have "\<forall>it\<in>set its. \<not> shown it" using made_unshown [OF build_items_made0 [OF b]] .
  then have u: "unshown (all_items ?s1) = all_items ?s1" by (simp add: unshown_all)
  have p: "promoted E now_fill ?s1 = model s0" by (simp add: promoted_def s0)
  have k: "map item_key (all_items s0) = map item_key (all_items ?s1)"
    by (simp add: s0 fill_all_items map_item_key_promote)
  from fill_accounting [of E now_fill ?s1] show ?thesis
    unfolding u p k s0 [symmetric] by (simp add: ac_simps)
qed

lemma lifetime_accounting:
  assumes "set_departures E clk now_fill departures s = Inr s0"
  shows "mset (map entry_key (model s0 @ promotions E cfg s0 ts))
           + mset (map item_key (unshown (all_items (run E cfg s0 (ticks ts)))))
         = mset (map item_key (all_items s0))"
  using load_accounting [OF assms] run_ticks_accounting [of E cfg s0 ts]
  by (simp add: ac_simps)


section \<open>One entry in one tick\<close>

lemma eval_entry_alt:
  "eval_entry L now e n =
     (case removal L now (e_time e - now) (with_dwell now e) of
        None \<Rightarrow> (None, n, [])
      | Some e2 \<Rightarrow>
          (Some (fst (assign L now (e_time e - now) e2 n)),
           fst (snd (assign L now (e_time e - now) e2 n)),
           snd (snd (assign L now (e_time e - now) e2 n))))"
  by (simp add: eval_entry_def with_dwell_def Let_def split_def split: option.splits)

lemma removal_cases:
  "removal L now delta e = Some e2 \<Longrightarrow> e2 = e \<or> e2 = e\<lparr>post_depart_at := Some now\<rparr>"
  by (auto simp: removal_def Let_def split: option.splits if_splits)

lemma sounds_arrival:
  "''arrival'' \<in> set (snd (sounds L delta e)) \<longleftrightarrow>
     (\<exists>l. last_delta e = Some l \<and> of_int (arrival_sound_before L) < l)
     \<and> delta \<le> of_int (arrival_sound_before L) \<and> \<not> played_arrival e"
  by (auto simp: sounds_def Let_def split_def split: option.splits)

lemma status_after_arrival: "''arrival'' \<notin> set (snd (snd (status_after L now delta e n)))"
  by (simp add: status_after_def split: option.splits)

lemma assign_ev:
  "snd (snd (assign L now delta e n)) =
     (if 0 \<le> delta then snd (sounds L delta (e\<lparr>row_status := fst (status_before L delta e n)\<rparr>))
      else snd (snd (status_after L now delta e n)))"
  by (simp add: assign_def split_def Let_def)

lemma assign_arrival:
  "''arrival'' \<in> set (snd (snd (assign L now delta e n))) \<longleftrightarrow>
     0 \<le> delta \<and> (\<exists>l. last_delta e = Some l \<and> of_int (arrival_sound_before L) < l)
     \<and> delta \<le> of_int (arrival_sound_before L) \<and> \<not> played_arrival e"
  by (simp add: assign_ev sounds_arrival status_after_arrival)

lemma with_dwell_fields [simp]:
  "last_delta (with_dwell now e) = last_delta e"
  "played_arrival (with_dwell now e) = played_arrival e"
  "pass_through (with_dwell now e) = pass_through e"
  "terminal_here (with_dwell now e) = terminal_here e"
  "is_delayed (with_dwell now e) = is_delayed e"
  "e_time (with_dwell now e) = e_time e"
  by (simp_all add: with_dwell_def)

lemma sounds_status [simp]: "row_status (fst (sounds L delta e)) = row_status e"
  by (simp add: sounds_def Let_def split_def split: option.splits)



lemma sounds_fields [simp]:
  "dwell_until (fst (sounds L delta e)) = dwell_until e"
  "post_depart_at (fst (sounds L delta e)) = post_depart_at e"
  by (simp_all add: sounds_def Let_def split_def split: option.splits)

lemma status_after_fields [simp]:
  "dwell_until (fst (status_after L now delta e n)) = dwell_until e"
  "post_depart_at (fst (status_after L now delta e n)) = post_depart_at e"
  by (simp_all add: status_after_def split: option.splits)

lemma assign_fields [simp]:
  "dwell_until (fst (assign L now delta e n)) = dwell_until e"
  "post_depart_at (fst (assign L now delta e n)) = post_depart_at e"
  by (simp_all add: assign_def split_def Let_def)


lemma with_dwell_post [simp]: "post_depart_at (with_dwell now e) = post_depart_at e"
  by (simp add: with_dwell_def)



lemma removal_pass_before: "removal (L\<lparr>pass_before := x\<rparr>) now delta e = removal L now delta e"
  by (simp add: removal_def Let_def cong: option.case_cong if_cong)

lemma status_before_pass_before:
  "status_before (L\<lparr>pass_before := x\<rparr>) delta e n = status_before L delta e n"
  by (simp add: status_before_def cong: if_cong)

lemma sounds_pass_before: "sounds (L\<lparr>pass_before := x\<rparr>) delta e = sounds L delta e"
  by (simp add: sounds_def Let_def split_def cong: if_cong option.case_cong)

lemma status_after_pass_before:
  "status_after (L\<lparr>pass_before := x\<rparr>) now delta e n = status_after L now delta e n"
  by (simp add: status_after_def cong: if_cong option.case_cong)

lemma assign_pass_before: "assign (L\<lparr>pass_before := x\<rparr>) now delta e n = assign L now delta e n"
  by (simp add: assign_def status_before_pass_before sounds_pass_before status_after_pass_before
      cong: if_cong)

lemma eval_entry_pass_before: "eval_entry (L\<lparr>pass_before := x\<rparr>) now e n = eval_entry L now e n"
  by (simp add: eval_entry_def Let_def removal_pass_before assign_pass_before cong: option.case_cong)

lemma refresh_loop_pass_before:
  "refresh_loop (L\<lparr>pass_before := x\<rparr>) now es n = refresh_loop L now es n"
  by (induction es arbitrary: n) (simp_all add: eval_entry_pass_before)

lemma sounds_events: "set (snd (sounds L delta e)) \<subseteq> event_keys"
  by (simp add: sounds_def event_keys_def Let_def split_def split: option.splits)

lemma status_after_events: "set (snd (snd (status_after L now delta e n))) \<subseteq> event_keys"
  by (simp add: status_after_def event_keys_def split: option.splits)

lemma assign_events: "set (snd (snd (assign L now delta e n))) \<subseteq> event_keys"
  by (simp add: assign_ev sounds_events status_after_events)

lemma eval_entry_events: "set (snd (snd (eval_entry L now e n))) \<subseteq> event_keys"
  by (cases "removal L now (e_time e - now) (with_dwell now e)")
     (simp_all add: eval_entry_alt assign_events)

lemma refresh_loop_ev:
  "snd (snd (refresh_loop L now (e # es) n)) =
     snd (snd (eval_entry L now e n)) @ snd (snd (refresh_loop L now es (fst (snd (eval_entry L now e n)))))"
  by (simp add: split_def Let_def)

lemma refresh_loop_events: "set (snd (snd (refresh_loop L now es n))) \<subseteq> event_keys"
proof (induction es arbitrary: n)
  case Nil
  then show ?case by simp
next
  case (Cons e es)
  show ?case
    unfolding refresh_loop_ev using eval_entry_events [of L now e n] Cons.IH by simp
qed

lemma sounds_pass:
  "''pass'' \<in> set (snd (sounds L delta e)) \<longleftrightarrow>
     pass_through e \<and> (\<exists>l. last_delta e = Some l \<and> 0 < l) \<and> delta \<le> 0 \<and> \<not> played_pass e"
  by (auto simp: sounds_def Let_def split_def split: option.splits)

lemma status_after_pass: "''pass'' \<notin> set (snd (snd (status_after L now delta e n)))"
  by (simp add: status_after_def split: option.splits)

lemma pass_cue_only_at_zero:
  assumes "''pass'' \<in> set (snd (snd (eval_entry L now e n)))"
  shows "e_time e - now = 0"
proof (cases "removal L now (e_time e - now) (with_dwell now e)")
  case None
  then show ?thesis using assms by (simp add: eval_entry_alt)
next
  case (Some e2)
  then have "''pass'' \<in> set (snd (snd (assign L now (e_time e - now) e2 n)))"
    using assms by (simp add: eval_entry_alt)
  then show ?thesis
    by (simp add: assign_ev sounds_pass status_after_pass split: if_splits)
qed

section \<open>Evaluating the scenarios\<close>

lemma ascii_platform_simps [simp]:
  "digit_of ascii_platform c = (if 48 \<le> c \<and> c \<le> 57 then Some (int c - 48) else None)"
  "max_str_digits ascii_platform = 4300"
  "str_err ascii_platform v = None"
  "ctor_ok ascii_platform t d l p = (is_str t \<and> is_str d \<and> is_str l \<and> is_str p)"
  by (simp_all add: ascii_platform_def)

lemma read_default_limits: "read_limits E default_thresholds = Inr default_limits"
  by (simp add: read_limits_def default_thresholds_def default_kvs_def default_limits_def th_int_def
      dget_def ascii_def)

lemma read_empty_limits: "read_limits E (JDict []) = Inr default_limits"
  by (simp add: read_limits_def default_limits_def th_int_def dget_def)

lemma read_null_pass_before: "read_limits E null_pass_before = Inl TypeError"
  by (simp add: read_limits_def null_pass_before_def th_int_def dget_def ascii_def)

lemma day_start_clock:
  assumes "0 \<le> h" "h < 24" "0 \<le> m" "m < 60" "0 \<le> sec" "sec < 60"
  shows "day_start (clock h m sec) = day0"
proof -
  have "(of_int h :: rat) \<le> 23" "(of_int m :: rat) \<le> 59" using assms by linarith+
  then have "of_int h * 3600 + of_int m * 60 + sec < (86400::rat)" using assms by linarith
  moreover have "0 \<le> of_int h * 3600 + of_int m * 60 + sec" using assms by simp
  ultimately have "\<lfloor>clock h m sec / 86400\<rfloor> = 738000"
    unfolding clock_def day0_def by (simp add: floor_unique field_simps)
  then show ?thesis by (simp add: day_start_def day0_def)
qed

lemma hour_minute_examples:
  "hour_minute ascii_platform (JStr (ascii ''08:00'')) = (8, 0)"
  "hour_minute ascii_platform (JStr (ascii ''09:00'')) = (9, 0)"
  "hour_minute ascii_platform (JStr (ascii ''10:00'')) = (10, 0)"
  by (simp_all add: hour_minute_def ascii_def split_colon_def py_int_str_def strip_def
      py_isspace_def py_unsigned_def)

lemma time_fields_examples:
  "time_fields ascii_platform (JStr (ascii ''08:00'')) = Inr (8, 0)"
  "time_fields ascii_platform (JStr (ascii ''09:00'')) = Inr (9, 0)"
  "time_fields ascii_platform (JStr (ascii ''10:00'')) = Inr (10, 0)"
  by (simp_all add: time_fields_def hour_minute_examples c_int_ok_def)

lemma parse_examples:
  "parse_today_or_tomorrow_time ascii_platform (clock 7 0 0) (JStr (ascii ''08:00'')) = Inr (clock 8 0 0)"
  "parse_today_or_tomorrow_time ascii_platform (clock 7 0 0) (JStr (ascii ''09:00'')) = Inr (clock 9 0 0)"
  "parse_today_or_tomorrow_time ascii_platform (clock 7 0 0) (JStr (ascii ''10:00'')) = Inr (clock 10 0 0)"
  using day_start_clock [of 7 0 0]
  by (simp_all add: parse_today_or_tomorrow_time_def time_fields_examples)
     (simp_all add: clock_def day0_def)

lemma add_delay_examples:
  "add_delay (clock 8 0 0) 0 = Inr (clock 8 0 0)"
  "add_delay (clock 9 0 0) 0 = Inr (clock 9 0 0)"
  "add_delay (clock 10 0 0) 0 = Inr (clock 10 0 0)"
  "add_delay (clock 8 0 0) 7500 = Inr (clock 10 5 0)"
  by (simp_all add: add_delay_def clock_def day0_def dt_max_def)

lemma make_item_examples:
  "make_item ascii_platform (clock 7 0 0) rec_regular = Inr item_regular"
  "make_item ascii_platform (clock 7 0 0) rec_terminal = Inr item_terminal"
  "make_item ascii_platform (clock 7 0 0) rec_pass = Inr item_pass"
  "make_item ascii_platform (clock 7 0 0) rec_late = Inr item_late"
  "make_item ascii_platform (clock 7 0 0) rec_stops = Inr item_stops"
  by (simp_all add: make_item_def rec_regular_def rec_terminal_def rec_pass_def rec_late_def
      rec_stops_def item_regular_def item_terminal_def item_pass_def item_late_def item_stops_def
      dget_def ascii_def [of "''time''"] ascii_def [of "''delay_secs''"]
      ascii_def [of "''type''"] ascii_def [of "''pass_through''"] ascii_def [of "''platform''"]
      ascii_def [of "''stops''"] parse_examples delay_secs_of_def add_delay_examples)

lemma row_builds_examples:
  "row_builds ascii_platform item_regular"
  "row_builds ascii_platform item_terminal"
  "row_builds ascii_platform item_pass"
  "row_builds ascii_platform item_late"
  by (simp_all add: row_builds_def create_row_from_item_def item_regular_def item_terminal_def
      item_pass_def item_late_def dget_def is_str_def py_str_err_def
      ascii_def [of "''via''"]
      ascii_def [of "''time''"] ascii_def [of "''delay_secs''"]
      ascii_def [of "''type''"] ascii_def [of "''pass_through''"] ascii_def [of "''platform''"]
      ascii_def [of "''stops''"] ascii_def [of "''destination''"] ascii_def [of "''line''"]
      time_fields_examples delay_secs_of_def)


lemma fill_ok:
  assumes "list_all (row_builds E) (candidates now s)"
  shows "fill_up_to_six E now s =
     Inr (s\<lparr>all_items := promote (length (candidates now s)) now (all_items s),
            model := model s @ map (new_entry E) (candidates now s)\<rparr>)"
proof -
  from assms obtain s' where s': "fill_up_to_six E now s = Inr s'" using fill_returns by blast
  then have b: "s' = board_of (fill_up_to_six E now s)" by (simp add: board_of_def)
  have "s' = s\<lparr>all_items := promote (length (candidates now s)) now (all_items s),
            model := model s @ map (new_entry E) (candidates now s)\<rparr>"
    by (rule board.equality)
       (simp_all add: b fill_all_items fill_model fill_notice built_all [OF assms])
  then show ?thesis using s' by simp
qed

lemma fill_noop: "candidates now s = [] \<Longrightarrow> fill_up_to_six E now s = Inr s"
  by (simp add: fill_ok)


lemma load_one:
  assumes "make_item E (clk 0) r = Inr it" "eligible now_fill it" "row_builds E it"
  shows "set_departures E clk now_fill [r] s =
     Inr \<lparr>all_items = [it\<lparr>shown := True\<rparr>], model = [new_entry E it], notice = notice s\<rparr>"
proof -
  let ?s1 = "s\<lparr>all_items := [it], model := []\<rparr>"
  have c: "candidates now_fill ?s1 = [it]" using assms(2) by (simp add: candidates_def)
  have "list_all (row_builds E) (candidates now_fill ?s1)" using assms(3) by (simp add: c)
  from fill_ok [OF this] show ?thesis using assms(1,2) c by (simp add: set_departures_def)
qed

lemma eligible_examples:
  "eligible (clock 7 0 0) item_regular" "eligible (clock 7 0 0) item_terminal"
  "eligible (clock 7 0 0) item_pass" "eligible (clock 7 0 0) item_late"
  "eligible (clock 7 0 0) item_stops"
  by (simp_all add: eligible_def item_regular_def item_terminal_def item_pass_def item_late_def
      item_stops_def clock_def)

lemma strip_kaisou: "strip kaisou = kaisou"
  by (simp add: strip_def kaisou_def py_isspace_def)

lemma loaded_regular:
  "loaded rec_regular =
     \<lparr>all_items = [item_regular\<lparr>shown := True\<rparr>],
      model = [\<lparr>e_time = clock 8 0 0, e_raw = raw item_regular,
                pass_through = False, terminal_here = False, is_delayed = False,
                dwell_until = None, post_depart_at = None, played_pre77 = False,
                played_arrival = False, played_departed = False, played_pass = False,
                last_delta = None, row_status = OnTime, row_platform = JStr (ascii ''-'')\<rparr>],
      notice = None\<rparr>"
proof -
  have m: "make_item ascii_platform (at7 0) rec_regular = Inr item_regular"
    by (simp add: at7_def make_item_examples)
  show ?thesis
    unfolding loaded_def do_step.simps
      load_one [of ascii_platform at7 rec_regular item_regular "clock 7 0 0",
        OF m eligible_examples(1) row_builds_examples(1)]
    by (simp add: board_of_def init_board_def new_entry_def item_regular_def dget_def
        delay_secs_of_def is_terminal_type_def strip_def kaisou_def
        ascii_def [of "''time''"] ascii_def [of "''delay_secs''"]
        ascii_def [of "''type''"] ascii_def [of "''pass_through''"] ascii_def [of "''platform''"])
qed

lemma loaded_terminal:
  "loaded rec_terminal =
     \<lparr>all_items = [item_terminal\<lparr>shown := True\<rparr>],
      model = [\<lparr>e_time = clock 9 0 0, e_raw = raw item_terminal,
                pass_through = False, terminal_here = True, is_delayed = False,
                dwell_until = None, post_depart_at = None, played_pre77 = False,
                played_arrival = False, played_departed = False, played_pass = False,
                last_delta = None, row_status = OnTime, row_platform = JStr (ascii ''-'')\<rparr>],
      notice = None\<rparr>"
proof -
  have m: "make_item ascii_platform (at7 0) rec_terminal = Inr item_terminal"
    by (simp add: at7_def make_item_examples)
  show ?thesis
    unfolding loaded_def do_step.simps
      load_one [of ascii_platform at7 rec_terminal item_terminal "clock 7 0 0",
        OF m eligible_examples(2) row_builds_examples(2)]
    by (simp add: board_of_def init_board_def new_entry_def item_terminal_def dget_def
        delay_secs_of_def is_terminal_type_def strip_kaisou
        ascii_def [of "''time''"] ascii_def [of "''delay_secs''"]
        ascii_def [of "''type''"] ascii_def [of "''pass_through''"] ascii_def [of "''platform''"])
qed

lemma loaded_pass:
  "loaded rec_pass =
     \<lparr>all_items = [item_pass\<lparr>shown := True\<rparr>],
      model = [\<lparr>e_time = clock 10 0 0, e_raw = raw item_pass,
                pass_through = True, terminal_here = False, is_delayed = False,
                dwell_until = None, post_depart_at = None, played_pre77 = False,
                played_arrival = False, played_departed = False, played_pass = False,
                last_delta = None, row_status = OnTime, row_platform = JStr (ascii ''2'')\<rparr>],
      notice = None\<rparr>"
proof -
  have m: "make_item ascii_platform (at7 0) rec_pass = Inr item_pass"
    by (simp add: at7_def make_item_examples)
  show ?thesis
    unfolding loaded_def do_step.simps
      load_one [of ascii_platform at7 rec_pass item_pass "clock 7 0 0",
        OF m eligible_examples(3) row_builds_examples(3)]
    by (simp add: board_of_def init_board_def new_entry_def item_pass_def dget_def
        delay_secs_of_def is_terminal_type_def strip_def kaisou_def
        ascii_def [of "''time''"] ascii_def [of "''delay_secs''"]
        ascii_def [of "''type''"] ascii_def [of "''pass_through''"] ascii_def [of "''platform''"])
qed

lemma shown_not_candidate [simp]:
  "candidates now \<lparr>all_items = [it\<lparr>shown := True\<rparr>], model = m, notice = n\<rparr> = []"
  by (simp add: candidates_def)

lemmas tick_eval =
  tick_at_def refresh_statuses_def read_default_limits default_limits_def evaluate_rows_def
  eval_entry_def removal_def assign_def status_before_def sounds_def status_after_def
  on_time_or_delayed_def Let_def fill_noop tick_board_def tick_events_def clock_def day0_def

section \<open>Independence of the unused threshold\<close>

lemma ascii_keys_distinct:
  "ascii ''approach_before_secs'' \<noteq> ascii ''pass_before_secs''"
  "ascii ''arrival_before_secs'' \<noteq> ascii ''pass_before_secs''"
  "ascii ''stop_before_secs'' \<noteq> ascii ''pass_before_secs''"
  "ascii ''remove_after_secs'' \<noteq> ascii ''pass_before_secs''"
  "ascii ''pass_remove_after_secs'' \<noteq> ascii ''pass_before_secs''"
  by (simp_all add: ascii_def)

lemma th_int_agree:
  assumes "\<forall>k. k \<noteq> ascii ''pass_before_secs'' \<longrightarrow> map_of kvs1 k = map_of kvs2 k"
    and "ascii key \<noteq> ascii ''pass_before_secs''"
  shows "th_int E kvs1 key d = th_int E kvs2 key d"
  using assms by (simp add: th_int_def dget_def)

lemma read_limits_agree:
  assumes a: "\<forall>k. k \<noteq> ascii ''pass_before_secs'' \<longrightarrow> map_of kvs1 k = map_of kvs2 k"
    and v1: "th_int E kvs1 ''pass_before_secs'' 20 = Inr v1"
    and v2: "th_int E kvs2 ''pass_before_secs'' 20 = Inr v2"
  shows "(\<exists>e. read_limits E (JDict kvs1) = Inl e \<and> read_limits E (JDict kvs2) = Inl e)
       \<or> (\<exists>L. read_limits E (JDict kvs2) = Inr L \<and> read_limits E (JDict kvs1) = Inr (L\<lparr>pass_before := v1\<rparr>))"
  unfolding read_limits_def json.case v1 v2
    th_int_agree [OF a ascii_keys_distinct(1)] th_int_agree [OF a ascii_keys_distinct(2)]
    th_int_agree [OF a ascii_keys_distinct(3)] th_int_agree [OF a ascii_keys_distinct(4)]
    th_int_agree [OF a ascii_keys_distinct(5)]
  by (simp split: sum.splits)

lemma evaluate_rows_pass_before: "evaluate_rows (L\<lparr>pass_before := x\<rparr>) now s = evaluate_rows L now s"
  by (simp add: evaluate_rows_def refresh_loop_pass_before)

lemma refresh_statuses_agree:
  assumes a: "\<forall>k. k \<noteq> ascii ''pass_before_secs'' \<longrightarrow> map_of kvs1 k = map_of kvs2 k"
    and v1: "th_int E kvs1 ''pass_before_secs'' 20 = Inr v1"
    and v2: "th_int E kvs2 ''pass_before_secs'' 20 = Inr v2"
  shows "refresh_statuses E (Some (JDict kvs1)) now now_fill s
       = refresh_statuses E (Some (JDict kvs2)) now now_fill s"
  using read_limits_agree [OF a v1 v2]
  by (auto simp: refresh_statuses_def evaluate_rows_pass_before)

lemma refused_pass_before:
  "th_int E kvs ''pass_before_secs'' 20 = Inl e \<Longrightarrow>
     \<exists>e'. refresh_statuses E (Some (JDict kvs)) now now_fill s = Inl (e', s, [])"
  by (auto simp: refresh_statuses_def read_limits_def split: sum.splits)

text \<open>
  C10, as amended. The tick does not depend on which value \<^verbatim>\<open>int()\<close> accepts stands under
  \<^verbatim>\<open>pass_before_secs\<close>: two threshold dictionaries that agree on every other key, and
  whose \<^verbatim>\<open>pass_before_secs\<close> both convert, give the same result at every tick (board,
  events, exception if another threshold is refused), hence the same statuses, notice, cues
  and removals over every run of loads and ticks. A \<^verbatim>\<open>pass_before_secs\<close> that
  \<^verbatim>\<open>int()\<close> refuses makes every tick raise while the thresholds are read: the board
  stays as it was and nothing is emitted.
\<close>

theorem pass_before_secs_not_consulted:
  assumes "\<forall>k. k \<noteq> ascii ''pass_before_secs'' \<longrightarrow> map_of kvs1 k = map_of kvs2 k"
    and "th_int E kvs1 ''pass_before_secs'' 20 = Inr v1"
    and "th_int E kvs2 ''pass_before_secs'' 20 = Inr v2"
  shows "refresh_statuses E (Some (JDict kvs1)) now now_fill s
           = refresh_statuses E (Some (JDict kvs2)) now now_fill s
       \<and> run E (Some (JDict kvs1)) s steps = run E (Some (JDict kvs2)) s steps
       \<and> (\<forall>kvs e. th_int E kvs ''pass_before_secs'' 20 = Inl e \<longrightarrow>
            (\<exists>e'. refresh_statuses E (Some (JDict kvs)) now now_fill s = Inl (e', s, [])))"
proof -
  have "\<And>s st. do_step E (Some (JDict kvs1)) s st = do_step E (Some (JDict kvs2)) s st"
  proof -
    fix s st show "do_step E (Some (JDict kvs1)) s st = do_step E (Some (JDict kvs2)) s st"
      by (cases st) (simp_all add: refresh_statuses_agree [OF assms])
  qed
  then have "do_step E (Some (JDict kvs1)) = do_step E (Some (JDict kvs2))" by (intro ext)
  then show ?thesis
    using refused_pass_before [of E _ _ now now_fill s]
    by (simp add: refresh_statuses_agree [OF assms] run_def)
qed

theorem pass_before_secs_not_consulted_witness:
  "refresh_statuses ascii_platform (Some default_thresholds) (clock 9 59 45) (clock 9 59 45) (loaded rec_pass)
     = refresh_statuses ascii_platform (Some (JDict string_pass_before)) (clock 9 59 45) (clock 9 59 45)
         (loaded rec_pass)
   \<and> th_int ascii_platform default_kvs ''pass_before_secs'' 20 = Inr 20
   \<and> th_int ascii_platform string_pass_before ''pass_before_secs'' 20 = Inr 5"
proof -
  have h: "\<forall>k. k \<noteq> ascii ''pass_before_secs'' \<longrightarrow> map_of default_kvs k = map_of string_pass_before k"
    by (simp add: default_kvs_def string_pass_before_def)
  have v1: "th_int ascii_platform default_kvs ''pass_before_secs'' 20 = Inr 20"
    by (simp add: th_int_def default_kvs_def dget_def ascii_def)
  have v2: "th_int ascii_platform string_pass_before ''pass_before_secs'' 20 = Inr 5"
    by (simp add: th_int_def string_pass_before_def dget_def
        ascii_def py_int_str_def strip_def py_isspace_def py_unsigned_def)
  show ?thesis
    unfolding default_thresholds_def
    using v1 v2 pass_before_secs_not_consulted [OF h v1 v2, of "clock 9 59 45" "clock 9 59 45" "loaded rec_pass"]
    by blast
qed

text \<open>
  C10 as stated fails: with \<^verbatim>\<open>pass_before_secs\<close> null and every other threshold at its
  default, the tick of 09:59:45 raises TypeError while the thresholds are read and leaves
  the pass-through row at its first status; with the default 20 the same tick sets it to
  "approaching".
\<close>

theorem pass_before_secs_counterexample:
  "without_pass_before null_pass_before = without_pass_before default_thresholds
   \<and> refresh_statuses ascii_platform (Some null_pass_before) (clock 9 59 45) (clock 9 59 45) (loaded rec_pass)
       = Inl (TypeError, loaded rec_pass, [])
   \<and> map row_status (model (loaded rec_pass)) = [OnTime]
   \<and> map row_status (model (tick_board
        (refresh_statuses ascii_platform (Some default_thresholds) (clock 9 59 45) (clock 9 59 45)
           (loaded rec_pass)))) = [Approaching]"
proof -
  have "without_pass_before null_pass_before = without_pass_before default_thresholds"
    by (simp add: without_pass_before_def null_pass_before_def default_thresholds_def default_kvs_def
        ascii_def)
  moreover have "refresh_statuses ascii_platform (Some null_pass_before) (clock 9 59 45) (clock 9 59 45)
      (loaded rec_pass) = Inl (TypeError, loaded rec_pass, [])"
    by (simp add: refresh_statuses_def read_null_pass_before)
  moreover have "map row_status (model (loaded rec_pass)) = [OnTime]"
    by (simp add: loaded_pass)
  moreover have "map row_status (model (tick_board
        (refresh_statuses ascii_platform (Some default_thresholds) (clock 9 59 45) (clock 9 59 45)
           (loaded rec_pass)))) = [Approaching]"
    by (simp add: loaded_pass tick_eval)
  ultimately show ?thesis by blast
qed

section \<open>Event identifiers\<close>

lemma tick_events_eq:
  "tick_events (refresh_statuses E cfg now now_fill s) =
     (case cfg of
        None \<Rightarrow> []
      | Some th \<Rightarrow>
          (case read_limits E th of
             Inl e \<Rightarrow> []
           | Inr L \<Rightarrow> snd (snd (refresh_loop L now (model s) (notice s)))))"
  by (simp add: refresh_statuses_def tick_events_def evaluate_rows_def split_def Let_def
      split: option.splits sum.splits)

text \<open>
  C7, as amended. Every value a tick passes to the event hook, whether the tick returns or
  raises, is one of the four strings \<^verbatim>\<open>arrival\<close>, \<^verbatim>\<open>pre30\<close>, \<^verbatim>\<open>depart\<close> and
  \<^verbatim>\<open>pass\<close>.
\<close>

theorem emitted_identifiers:
  "set (tick_events (refresh_statuses E cfg now now_fill s))
     \<subseteq> {''arrival'', ''pre30'', ''depart'', ''pass''}"
proof (cases cfg)
  case None
  then show ?thesis by (simp add: tick_events_eq)
next
  case (Some th)
  show ?thesis
  proof (cases "read_limits E th")
    case (Inl e)
    then show ?thesis using Some by (simp add: tick_events_eq)
  next
    case (Inr L)
    then show ?thesis
      using Some refresh_loop_events [of L now "model s" "notice s"]
      by (simp add: tick_events_eq event_keys_def)
  qed
qed

text \<open>
  C7 as stated fails: the regular 08:00 train, loaded at 07:00:00 and ticked at 07:58:42 and
  07:58:43, crosses the approach threshold of 77 seconds, and the hook receives
  \<^verbatim>\<open>pre30\<close>, which is none of \<^verbatim>\<open>arrival\<close>, \<^verbatim>\<open>pre_approach\<close>, \<^verbatim>\<open>departed\<close>,
  \<^verbatim>\<open>pass\<close>.
\<close>

theorem emitted_identifiers_counterexample:
  "\<not> set (snd (tick_at (clock 7 58 43) (fst (tick_at (clock 7 58 42) (loaded rec_regular)))))
       \<subseteq> {''arrival'', ''pre_approach'', ''departed'', ''pass''}"
  by (simp add: loaded_regular tick_eval)

section \<open>Scenario theorems\<close>

text \<open>
  C8, as amended. The arrival cue applies in every mode, the terminal and pass-through modes
  included: whenever an entry of any kind survives removal in a tick with \<open>delta \<ge> 0\<close> in
  which delta crosses \<^verbatim>\<open>arrival_before_secs\<close> downward
  (\<open>last_delta > arrival_before_secs \<ge> delta\<close>) and the cue was not played for it before,
  the tick emits \<^verbatim>\<open>arrival\<close>.
\<close>

theorem arrival_any_mode:
  assumes "fst (eval_entry L now e n) \<noteq> None" and "0 \<le> e_time e - now"
    and "last_delta e = Some l" and "of_int (arrival_sound_before L) < l"
    and "e_time e - now \<le> of_int (arrival_sound_before L)" and "\<not> played_arrival e"
  shows "''arrival'' \<in> set (snd (snd (eval_entry L now e n)))"
proof (cases "removal L now (e_time e - now) (with_dwell now e)")
  case None
  then show ?thesis using assms(1) by (simp add: eval_entry_alt)
next
  case (Some e2)
  from removal_cases [OF Some] have "last_delta e2 = last_delta e" "played_arrival e2 = played_arrival e"
    by auto
  then show ?thesis using Some assms by (simp add: eval_entry_alt assign_arrival)
qed

theorem arrival_any_mode_witness:
  "pass_through (hd (model (fst (tick_at (clock 9 59 2) (loaded rec_pass)))))
   \<and> last_delta (hd (model (fst (tick_at (clock 9 59 2) (loaded rec_pass))))) = Some 58
   \<and> ''arrival'' \<in> set (snd (snd (eval_entry default_limits (clock 9 59 3)
        (hd (model (fst (tick_at (clock 9 59 2) (loaded rec_pass))))) None)))"
proof -
  let ?e = "hd (model (fst (tick_at (clock 9 59 2) (loaded rec_pass))))"
  have e: "?e = \<lparr>e_time = clock 10 0 0, e_raw = raw item_pass,
                pass_through = True, terminal_here = False, is_delayed = False,
                dwell_until = None, post_depart_at = None, played_pre77 = False,
                played_arrival = False, played_departed = False, played_pass = False,
                last_delta = Some 58, row_status = Approaching, row_platform = JStr (ascii ''2'')\<rparr>"
    by (simp add: loaded_pass tick_eval)
  have s: "fst (eval_entry default_limits (clock 9 59 3) ?e None) \<noteq> None"
    unfolding e
    by (simp add: default_limits_def eval_entry_def removal_def assign_def status_before_def
        sounds_def Let_def clock_def)
  have "''arrival'' \<in> set (snd (snd (eval_entry default_limits (clock 9 59 3) ?e None)))"
    by (rule arrival_any_mode [OF s, of 58]) (unfold e, simp_all add: default_limits_def clock_def)
  moreover have "pass_through ?e" "last_delta ?e = Some 58" unfolding e by simp_all
  ultimately show ?thesis by blast
qed

text \<open>
  C8 as stated fails: the pass-through 10:00 train, loaded at 07:00:00 and ticked at 09:59:02
  (58 seconds before) and 09:59:03 (57 seconds before), crosses the arrival threshold and the
  hook receives \<^verbatim>\<open>arrival\<close>.
\<close>

theorem arrival_pass_through_counterexample:
  "map pass_through (model (loaded rec_pass)) = [True]
   \<and> ''arrival'' \<in> set (snd (tick_at (clock 9 59 3) (fst (tick_at (clock 9 59 2) (loaded rec_pass)))))"
  by (simp add: loaded_pass tick_eval)





text \<open>
  Scenario C end to end: terminal 09:00 train, ticks at 09:00:01, 09:00:59, 09:01:00, 09:01:09
  and 09:01:10.
\<close>

lemma terminal_scenario:
  "map row_status (model (fst (tick_at (clock 9 0 59) (fst (tick_at (clock 9 0 1) (loaded rec_terminal)))))) = [TermStopped]
   \<and> map row_status (model (fst (tick_at (clock 9 1 0) (fst (tick_at (clock 9 0 1) (loaded rec_terminal)))))) = [Departed]
   \<and> map post_depart_at (model (fst (tick_at (clock 9 1 0) (fst (tick_at (clock 9 0 1) (loaded rec_terminal)))))) = [Some (clock 9 1 0)]
   \<and> map row_status (model (fst (tick_at (clock 9 1 9) (fst (tick_at (clock 9 1 0) (fst (tick_at (clock 9 0 1) (loaded rec_terminal)))))))) = [Departed]
   \<and> model (fst (tick_at (clock 9 1 10) (fst (tick_at (clock 9 1 0) (fst (tick_at (clock 9 0 1) (loaded rec_terminal))))))) = []"
  by (simp add: loaded_terminal tick_eval)

text \<open>
  C3 on the code: the pass-through 10:00 train is ticked half a second before and half a
  second after its time. The second tick sees \<open>last_delta = 1/2 > 0 \<ge> -1/2 = delta\<close>, the
  trigger of the pass cue, and emits nothing; the flag stays unset and no later tick emits
  the cue either. (By \<open>pass_cue_only_at_zero\<close> the cue can sound only in a tick whose delta
  is exactly 0.)
\<close>

theorem pass_cue_missed:
  "map pass_through (model (loaded rec_pass)) = [True]
   \<and> map last_delta (model (fst (tick_at (clock 9 59 (119 / 2)) (loaded rec_pass)))) = [Some (1 / 2)]
   \<and> snd (tick_at (clock 10 0 (1 / 2)) (fst (tick_at (clock 9 59 (119 / 2)) (loaded rec_pass)))) = []
   \<and> map last_delta (model (fst (tick_at (clock 10 0 (1 / 2)) (fst (tick_at (clock 9 59 (119 / 2)) (loaded rec_pass))))))
       = [Some (- 1 / 2)]
   \<and> map played_pass (model (fst (tick_at (clock 10 0 (1 / 2)) (fst (tick_at (clock 9 59 (119 / 2)) (loaded rec_pass))))))
       = [False]
   \<and> snd (tick_at (clock 10 0 (3 / 2))
        (fst (tick_at (clock 10 0 (1 / 2)) (fst (tick_at (clock 9 59 (119 / 2)) (loaded rec_pass)))))) = []"
  by (simp add: loaded_pass tick_eval)

text \<open>
  C5 on the code: the pass-through 10:00 train of Scenario D. The notice is active at
  09:59:45 and at 10:00:05; at 10:00:11 the entry is removed, and the notice is still
  active, then and five minutes later.
\<close>

theorem pass_notice_not_cleared:
  "notice (loaded rec_pass) = None
   \<and> notice (fst (tick_at (clock 9 59 45) (loaded rec_pass))) = Some (JStr (ascii ''2''))
   \<and> map row_status (model (fst (tick_at (clock 9 59 45) (loaded rec_pass)))) = [Approaching]
   \<and> map row_status (model (fst (tick_at (clock 10 0 5) (fst (tick_at (clock 9 59 45) (loaded rec_pass))))))
       = [Passed]
   \<and> model (fst (tick_at (clock 10 0 11)
        (fst (tick_at (clock 10 0 5) (fst (tick_at (clock 9 59 45) (loaded rec_pass))))))) = []
   \<and> notice (fst (tick_at (clock 10 0 11)
        (fst (tick_at (clock 10 0 5) (fst (tick_at (clock 9 59 45) (loaded rec_pass)))))))
       = Some (JStr (ascii ''2''))
   \<and> notice (fst (tick_at (clock 10 5 0) (fst (tick_at (clock 10 0 11)
        (fst (tick_at (clock 10 0 5) (fst (tick_at (clock 9 59 45) (loaded rec_pass)))))))))
       = Some (JStr (ascii ''2''))"
  by (simp add: loaded_pass tick_eval)

section \<open>Loads that raise\<close>

lemma make_item_not_dict: "make_item E now (JInt 5) = Inl AttributeError"
  by (simp add: make_item_def)

lemma make_item_abc:
  "make_item ascii_platform (clock 7 0 0)
     (JDict [(ascii ''time'', JStr (ascii ''08:00'')), (ascii ''delay_secs'', JStr (ascii ''abc''))])
   = Inl ValueError"
  by (simp add: make_item_def dget_def parse_examples delay_secs_of_def)
     (simp add: ascii_def py_int_str_def strip_def py_isspace_def py_unsigned_def)

text \<open>
  C9 on the code: a list whose second element is the number 5 makes \<^verbatim>\<open>set_departures\<close>
  raise AttributeError, with \<^verbatim>\<open>_all_items\<close> left holding only the first record and the
  old window still in place; a record whose \<^verbatim>\<open>delay_secs\<close> is the string \<^verbatim>\<open>abc\<close>
  makes it raise ValueError.
\<close>

theorem load_raises:
  "set_departures ascii_platform at7 (clock 7 0 0) [rec_regular, JInt 5] (loaded rec_pass)
     = Inl (AttributeError,
            (loaded rec_pass)\<lparr>all_items :=
               [\<lparr>raw = [(ascii ''time'', JStr (ascii ''08:00'')), (ascii ''delay_secs'', JInt 0)],
                 time = clock 8 0 0, shown = False\<rparr>]\<rparr>)
   \<and> set_departures ascii_platform at7 (clock 7 0 0)
       [JDict [(ascii ''time'', JStr (ascii ''08:00'')), (ascii ''delay_secs'', JStr (ascii ''abc''))]]
       init_board
     = Inl (ValueError, init_board)"
  by (simp add: set_departures_def at7_def make_item_examples make_item_not_dict make_item_abc
      init_board_def item_regular_def)


section \<open>The window and the fill contract\<close>


lemma build_three:
  "build_items ascii_platform at7 0 [rec_pass, rec_late, rec_terminal] [] =
     Inr [item_pass, item_late, item_terminal]"
  by (simp add: at7_def make_item_examples)

lemma sort_three:
  "sort_key time [item_pass, item_late, item_terminal] = [item_terminal, item_pass, item_late]"
  by (simp add: item_pass_def item_late_def item_terminal_def clock_def)

lemma load_three:
  "set_departures ascii_platform at7 (clock 7 0 0) [rec_pass, rec_late, rec_terminal] init_board
     = Inr three_loaded"
proof -
  let ?s1 = "\<lparr>all_items = [item_terminal, item_pass, item_late], model = [], notice = None\<rparr>"
  have c: "candidates (clock 7 0 0) ?s1 = [item_terminal, item_pass, item_late]"
    by (simp add: candidates_def eligible_examples)
  have "list_all (row_builds ascii_platform) (candidates (clock 7 0 0) ?s1)"
    by (simp add: c row_builds_examples)
  from fill_ok [OF this] have "fill_up_to_six ascii_platform (clock 7 0 0) ?s1 = Inr three_loaded"
    by (simp add: c three_loaded_def eval_nat_numeral eligible_examples)
  then show ?thesis
    unfolding set_departures_def build_three sum.case sort_three by (simp add: init_board_def)
qed

text \<open>
  C1. From the empty board, after any sequence of loads and ticks, whether they return or
  raise, the window holds at most 6 entries. Over any sequence of ticks no schedule entry
  changes and no \<^verbatim>\<open>shown\<close> flag is reset; the entries still unshown after the ticks,
  together with the rows the ticks appended, are exactly the entries unshown before, so a
  row is appended only for an unshown entry, whose flag is set by that, and never for one
  shown (as every entry is whose row was in the window). A tick's window is the surviving
  rows followed by the appended ones. Over the lifetime of a loaded schedule the rows ever
  placed in the window and the entries still unshown make up the schedule, each entry once.
\<close>

theorem window_invariant:
  "length (model (run E cfg init_board steps)) \<le> 6
   \<and> list_all2 flag_kept (all_items s) (all_items (run E cfg s (ticks ts)))
   \<and> mset (map item_key (unshown (all_items (run E cfg s (ticks ts)))))
        + mset (map entry_key (promotions E cfg s ts))
      = mset (map item_key (unshown (all_items s)))
   \<and> model (tick_board (refresh_statuses E cfg now now_fill s))
      = tick_survivors E cfg now s @ tick_promoted E cfg now now_fill s
   \<and> (set_departures E clk now1 departures s = Inr s0 \<longrightarrow>
        mset (map entry_key (model s0 @ promotions E cfg s0 ts))
          + mset (map item_key (unshown (all_items (run E cfg s0 (ticks ts)))))
        = mset (map item_key (all_items s0)))"
proof (intro conjI impI)
  show "length (model (run E cfg init_board steps)) \<le> 6"
    by (rule run_length) (simp add: init_board_def)
  show "list_all2 flag_kept (all_items s) (all_items (run E cfg s (ticks ts)))"
    by (rule run_ticks_flag_kept)
  show "mset (map item_key (unshown (all_items (run E cfg s (ticks ts)))))
        + mset (map entry_key (promotions E cfg s ts))
      = mset (map item_key (unshown (all_items s)))"
    by (rule run_ticks_accounting)
  show "model (tick_board (refresh_statuses E cfg now now_fill s))
      = tick_survivors E cfg now s @ tick_promoted E cfg now now_fill s"
    by (rule tick_model)
  assume "set_departures E clk now1 departures s = Inr s0"
  then show "mset (map entry_key (model s0 @ promotions E cfg s0 ts))
          + mset (map item_key (unshown (all_items (run E cfg s0 (ticks ts)))))
        = mset (map item_key (all_items s0))"
    by (rule lifetime_accounting)
qed

theorem window_invariant_witness:
  "mset (map entry_key
      (model three_loaded
       @ promotions ascii_platform (Some default_thresholds) three_loaded [(clock 8 0 0, clock 8 0 0)]))
     + mset (map item_key (unshown (all_items (run ascii_platform (Some default_thresholds)
           three_loaded (ticks [(clock 8 0 0, clock 8 0 0)])))))
   = mset (map item_key (all_items three_loaded))
   \<and> set_departures ascii_platform at7 (clock 7 0 0) [rec_pass, rec_late, rec_terminal] init_board
       = Inr three_loaded
   \<and> length (all_items three_loaded) = 3"
proof -
  have "length (all_items three_loaded) = 3" by (simp add: three_loaded_def)
  then show ?thesis
    using load_three window_invariant [of ascii_platform "Some default_thresholds" _ init_board
        "[(clock 8 0 0, clock 8 0 0)]" _ _ at7 "clock 7 0 0" "[rec_pass, rec_late, rec_terminal]"
        three_loaded]
    by blast
qed



end
